theory Spec2Isabelle
  imports Main
begin

section \<open>JavaScript strings\<close>

text \<open>
  A JavaScript string is a sequence of UTF-16 code units. The regular expressions of the
  sources carry no \<open>u\<close> flag, so they match code unit by code unit; \<open>length\<close>,
  \<open>substring\<close>, \<open>startsWith\<close> and \<open>endsWith\<close> count code units as well. A code unit
  is a natural number below 65536; no operation of the model does arithmetic on one.
\<close>

type_synonym jschar = nat

type_synonym jsstring = "jschar list"

text \<open>An ASCII literal of the source, written as a HOL string.\<close>

definition ascii :: "string \<Rightarrow> jsstring" where
  "ascii s = map of_char s"

text \<open>
  The class \<open>\s\<close> of a regular expression, which is also what \<open>String.prototype.trim\<close>
  removes (ECMAScript WhiteSpace and LineTerminator): TAB, LF, VT, FF, CR, SPACE, NBSP,
  U+1680, U+2000..U+200A, U+2028, U+2029, U+202F, U+205F, U+3000 and U+FEFF.
\<close>

definition isWhiteSpace :: "jschar \<Rightarrow> bool" where
  "isWhiteSpace c \<longleftrightarrow>
     c = 9 \<or> c = 10 \<or> c = 11 \<or> c = 12 \<or> c = 13 \<or> c = 32 \<or> c = 160 \<or> c = 5760 \<or>
     (8192 \<le> c \<and> c \<le> 8202) \<or> c = 8232 \<or> c = 8233 \<or> c = 8239 \<or> c = 8287 \<or>
     c = 12288 \<or> c = 65279"

text \<open>\<open>s.trim()\<close>\<close>

definition trim :: "jsstring \<Rightarrow> jsstring" where
  "trim s = rev (dropWhile isWhiteSpace (rev (dropWhile isWhiteSpace s)))"

text \<open>
  \<open>s.replace(/[class]+/g, r)\<close> for a character class: scanning from the left, every
  maximal run of code units of the class is replaced by \<open>r\<close>, and the scan resumes behind
  the run.
\<close>

function replaceRuns :: "(jschar \<Rightarrow> bool) \<Rightarrow> jsstring \<Rightarrow> jsstring \<Rightarrow> jsstring" where
  "replaceRuns P r [] = []"
| "replaceRuns P r (c # cs) =
     (if P c then r @ replaceRuns P r (dropWhile P cs) else c # replaceRuns P r cs)"
  by pat_completeness auto
termination
  by (relation "measure (\<lambda>(P, r, s). length s)")
     (auto simp: less_Suc_eq_le length_dropWhile_le)

text \<open>\<open>s.replace(/x/g, r)\<close> for a single code unit \<open>x\<close> and a one-unit replacement.\<close>

definition replaceEach :: "jschar \<Rightarrow> jschar \<Rightarrow> jsstring \<Rightarrow> jsstring" where
  "replaceEach x r s = map (\<lambda>c. if c = x then r else c) s"

text \<open>\<open>s.split(sep)\<close> for a one-unit separator; the empty string splits into \<open>[""]\<close>.\<close>

fun splitOn :: "jschar \<Rightarrow> jsstring \<Rightarrow> jsstring list" where
  "splitOn sep [] = [[]]"
| "splitOn sep (c # cs) =
     (if c = sep then [] # splitOn sep cs
      else (case splitOn sep cs of
              [] \<Rightarrow> [[c]]
            | w # ws \<Rightarrow> (c # w) # ws))"

text \<open>\<open>xs.join(sep)\<close> for a one-unit separator.\<close>

fun joinWith :: "jschar \<Rightarrow> jsstring list \<Rightarrow> jsstring" where
  "joinWith sep [] = []"
| "joinWith sep [x] = x"
| "joinWith sep (x # y # ys) = x @ sep # joinWith sep (y # ys)"

text \<open>
  \<open>s.substring(a, b)\<close>: both indices are clamped to the length, and swapped when the
  first is the larger.
\<close>

definition substring :: "jsstring \<Rightarrow> nat \<Rightarrow> nat \<Rightarrow> jsstring" where
  "substring s a b =
     (let a' = min a (length s); b' = min b (length s);
          lo = min a' b'; hi = max a' b'
      in take (hi - lo) (drop lo s))"

section \<open>The slug generator (src/core/utils/slugify.ts)\<close>

abbreviation hyphen :: jschar where "hyphen \<equiv> 45"

abbreviation slash :: jschar where "slash \<equiv> 47"

abbreviation backslash :: jschar where "backslash \<equiv> 92"

abbreviation underscore :: jschar where "underscore \<equiv> 95"

text \<open>The class of lowercase Latin letters, digits, Hangul syllables (U+AC00 = 44032 to U+D7A3 = 55203) and the hyphen.\<close>

definition slugUnit :: "jschar \<Rightarrow> bool" where
  "slugUnit c \<longleftrightarrow>
     (97 \<le> c \<and> c \<le> 122) \<or> (48 \<le> c \<and> c \<le> 57) \<or> (44032 \<le> c \<and> c \<le> 55203) \<or> c = hyphen"

text \<open>\<open>s.replace(/\.md$/, "")\<close>: without the \<open>m\<close> flag, \<open>$\<close> is the end of the input.\<close>

definition removeMdExtension :: "jsstring \<Rightarrow> jsstring" where
  "removeMdExtension s =
     (if 3 \<le> length s \<and> drop (length s - 3) s = [46, 109, 100]
      then take (length s - 3) s else s)"

text \<open>
  \<open>s.replace(/^-+|-+$/g, "")\<close>: the first alternative matches only at index 0, the
  second only a run of hyphens that reaches the end of the input.
\<close>

definition stripHyphens :: "jsstring \<Rightarrow> jsstring" where
  "stripHyphens s =
     rev (dropWhile (\<lambda>c. c = hyphen) (rev (dropWhile (\<lambda>c. c = hyphen) s)))"

text \<open>
  The arrow function mapped over the segments. \<open>String.prototype.toLowerCase\<close> is the
  runtime's Unicode case conversion; it is the parameter \<open>lc\<close>.
\<close>

definition slugSegment :: "(jsstring \<Rightarrow> jsstring) \<Rightarrow> jsstring \<Rightarrow> jsstring" where
  "slugSegment lc segment =
     stripHyphens
       (replaceRuns (\<lambda>c. c = hyphen) [hyphen]
         (replaceRuns (\<lambda>c. \<not> slugUnit c) []
           (replaceEach underscore hyphen
             (replaceRuns isWhiteSpace [hyphen]
               (lc (trim segment))))))"

definition filenameToSlug :: "(jsstring \<Rightarrow> jsstring) \<Rightarrow> jsstring \<Rightarrow> jsstring" where
  "filenameToSlug lc nameOrPath =
     (if nameOrPath = [] then []
      else joinWith slash
             (filter (\<lambda>segment. length segment > 0)
               (map (slugSegment lc)
                 (splitOn slash
                   (replaceEach backslash slash (removeMdExtension nameOrPath))))))"

text \<open>
  What the slug generator relies on from \<open>toLowerCase\<close>: on a string of ASCII and
  Hangul-syllable code units it lowercases the letters A to Z and changes nothing else
  (no other such code unit has a case mapping).
\<close>

definition asciiLower :: "jschar \<Rightarrow> jschar" where
  "asciiLower c = (if 65 \<le> c \<and> c \<le> 90 then c + 32 else c)"

definition plainUnit :: "jschar \<Rightarrow> bool" where
  "plainUnit c \<longleftrightarrow> c < 128 \<or> (44032 \<le> c \<and> c \<le> 55203)"

definition toLowerCase_contract :: "(jsstring \<Rightarrow> jsstring) \<Rightarrow> bool" where
  "toLowerCase_contract lc \<longleftrightarrow> (\<forall>s. list_all plainUnit s \<longrightarrow> lc s = map asciiLower s)"

text \<open>The restriction of \<open>toLowerCase\<close> to such strings, for concrete runs.\<close>

definition asciiToLowerCase :: "jsstring \<Rightarrow> jsstring" where
  "asciiToLowerCase s = map asciiLower s"

subsection \<open>The normalization in the words of the specification\<close>

text \<open>"Strip a trailing Markdown extension."\<close>

definition spec_stripMarkdownExtension :: "jsstring \<Rightarrow> jsstring" where
  "spec_stripMarkdownExtension s =
     (if take 3 (rev s) = [100, 109, 46] then rev (drop 3 (rev s)) else s)"

text \<open>"Replace whitespace runs ... with a single hyphen": one pass that remembers whether
  the previous code unit was whitespace.\<close>

fun whitespaceRunsToHyphen :: "bool \<Rightarrow> jsstring \<Rightarrow> jsstring" where
  "whitespaceRunsToHyphen inRun [] = []"
| "whitespaceRunsToHyphen inRun (c # cs) =
     (if isWhiteSpace c then (if inRun then [] else [hyphen]) @ whitespaceRunsToHyphen True cs
      else c # whitespaceRunsToHyphen False cs)"

text \<open>"Collapse repeated hyphens": a hyphen followed by a hyphen is dropped.\<close>

fun squeezeHyphens :: "jsstring \<Rightarrow> jsstring" where
  "squeezeHyphens (c # d # cs) =
     (if c = hyphen \<and> d = hyphen then squeezeHyphens (d # cs) else c # squeezeHyphens (d # cs))"
| "squeezeHyphens cs = cs"

text \<open>
  "Trim surrounding whitespace" and "strip leading/trailing hyphens": the units of a
  class are dropped from the front, and a unit of the class is dropped from the back when
  nothing is kept behind it.
\<close>

fun spec_dropLeading :: "(jschar \<Rightarrow> bool) \<Rightarrow> jsstring \<Rightarrow> jsstring" where
  "spec_dropLeading P [] = []"
| "spec_dropLeading P (c # cs) = (if P c then spec_dropLeading P cs else c # cs)"

fun spec_dropTrailing :: "(jschar \<Rightarrow> bool) \<Rightarrow> jsstring \<Rightarrow> jsstring" where
  "spec_dropTrailing P [] = []"
| "spec_dropTrailing P (c # cs) =
     (case spec_dropTrailing P cs of
        [] \<Rightarrow> if P c then [] else [c]
      | d # ds \<Rightarrow> c # d # ds)"

definition spec_trimWhitespace :: "jsstring \<Rightarrow> jsstring" where
  "spec_trimWhitespace s = spec_dropTrailing isWhiteSpace (spec_dropLeading isWhiteSpace s)"

definition spec_stripHyphenEnds :: "jsstring \<Rightarrow> jsstring" where
  "spec_stripHyphenEnds s =
     spec_dropTrailing (\<lambda>c. c = hyphen) (spec_dropLeading (\<lambda>c. c = hyphen) s)"

text \<open>
  "A lowercase Latin letter, a digit, a Hangul syllable (codepoint range U+AC00 to
  U+D7A3), or a hyphen."
\<close>

definition spec_lowercaseLatin :: "jschar \<Rightarrow> bool" where
  "spec_lowercaseLatin c \<longleftrightarrow> of_char CHR ''a'' \<le> c \<and> c \<le> of_char CHR ''z''"

definition spec_digit :: "jschar \<Rightarrow> bool" where
  "spec_digit c \<longleftrightarrow> of_char CHR ''0'' \<le> c \<and> c \<le> of_char CHR ''9''"

definition spec_hangulSyllable :: "jschar \<Rightarrow> bool" where
  "spec_hangulSyllable c \<longleftrightarrow> 0xAC00 \<le> c \<and> c \<le> 0xD7A3"

definition spec_allowedUnit :: "jschar \<Rightarrow> bool" where
  "spec_allowedUnit c \<longleftrightarrow>
     spec_lowercaseLatin c \<or> spec_digit c \<or> spec_hangulSyllable c \<or> c = of_char CHR ''-''"

text \<open>
  Per segment: trim surrounding whitespace, lowercase, replace whitespace runs and
  underscores with a single hyphen, delete every character that is not a lowercase Latin
  letter, a digit, a Hangul syllable or a hyphen, collapse repeated hyphens, strip leading
  and trailing hyphens.
\<close>

definition spec_normalizeSegment :: "(jsstring \<Rightarrow> jsstring) \<Rightarrow> jsstring \<Rightarrow> jsstring" where
  "spec_normalizeSegment lc segment =
     spec_stripHyphenEnds
       (squeezeHyphens
         (filter spec_allowedUnit
           (map (\<lambda>c. if c = underscore then hyphen else c)
             (whitespaceRunsToHyphen False (lc (spec_trimWhitespace segment))))))"

text \<open>
  "Split on \<open>/\<close> into segments": one pass that collects the current segment and closes
  it at every slash and at the end.
\<close>

fun spec_splitFrom :: "jsstring \<Rightarrow> jsstring \<Rightarrow> jsstring list" where
  "spec_splitFrom current [] = [rev current]"
| "spec_splitFrom current (c # cs) =
     (if c = slash then rev current # spec_splitFrom [] cs
      else spec_splitFrom (c # current) cs)"

definition spec_splitOnSlash :: "jsstring \<Rightarrow> jsstring list" where
  "spec_splitOnSlash s = spec_splitFrom [] s"

text \<open>"Rejoin surviving segments with \<open>/\<close>": a slash in front of every segment but the first.\<close>

definition spec_joinWithSlash :: "jsstring list \<Rightarrow> jsstring" where
  "spec_joinWithSlash segments =
     (case segments of
        [] \<Rightarrow> []
      | first # others \<Rightarrow> first @ concat (map (\<lambda>segment. slash # segment) others))"

text \<open>
  Steps 1 to 5 of the specification: strip the extension, normalize backslashes, split
  on the slash, normalize each segment, drop the empty ones, rejoin; the empty input
  yields the empty slug.
\<close>

definition slugify_spec :: "(jsstring \<Rightarrow> jsstring) \<Rightarrow> jsstring \<Rightarrow> jsstring" where
  "slugify_spec lc x =
     (if x = [] then []
      else spec_joinWithSlash
             (filter (\<lambda>s. s \<noteq> [])
               (map (spec_normalizeSegment lc)
                 (spec_splitOnSlash
                   (map (\<lambda>c. if c = backslash then slash else c)
                     (spec_stripMarkdownExtension x))))))"

subsection \<open>Slug form\<close>

fun hasDoubleHyphen :: "jsstring \<Rightarrow> bool" where
  "hasDoubleHyphen (c # d # cs) = ((c = hyphen \<and> d = hyphen) \<or> hasDoubleHyphen (d # cs))"
| "hasDoubleHyphen cs = False"

text \<open>
  A segment in slug form: not empty, only code units of the slug alphabet, no hyphen at
  either end and no two hyphens in a row. A slug is empty or a \<open>/\<close>-separated sequence
  of such segments.
\<close>

definition slugSegmentForm :: "jsstring \<Rightarrow> bool" where
  "slugSegmentForm s \<longleftrightarrow>
     s \<noteq> [] \<and> list_all slugUnit s \<and> hd s \<noteq> hyphen \<and> last s \<noteq> hyphen \<and> \<not> hasDoubleHyphen s"

definition slugForm :: "jsstring \<Rightarrow> bool" where
  "slugForm y \<longleftrightarrow> y = [] \<or> list_all slugSegmentForm (splitOn slash y)"

section \<open>The SEO generator (src/llm/mdToSEO.ts)\<close>

subsection \<open>isLikelyEnglish\<close>

text \<open>A range \<open>lo-hi\<close> of a character class, both ends included.\<close>

definition inRange :: "nat \<Rightarrow> nat \<Rightarrow> jschar \<Rightarrow> bool" where
  "inRange lo hi c \<longleftrightarrow> lo \<le> c \<and> c \<le> hi"

text \<open>\<open>/[class]/.test(s)\<close> for a character class: some code unit of \<open>s\<close> is in the class.\<close>

definition testClass :: "(jschar \<Rightarrow> bool) \<Rightarrow> jsstring \<Rightarrow> bool" where
  "testClass cls s = list_ex cls s"

text \<open>
  The array \<open>nonEnglishScripts\<close>, in the order of the source: the expression commented
  Hangul with the ranges U+3131..U+D79D and U+AC00..U+D7AF, the expression for Hiragana
  and Katakana with U+3040..U+309F and U+30A0..U+30FF, the one for CJK Unified Ideographs
  with U+4E00..U+9FFF and the one for Cyrillic with U+0400..U+04FF.
\<close>

definition nonEnglishScripts :: "(jschar \<Rightarrow> bool) list" where
  "nonEnglishScripts =
     [\<lambda>c. inRange 0x3131 0xD79D c \<or> inRange 0xAC00 0xD7AF c,
      \<lambda>c. inRange 0x3040 0x309F c \<or> inRange 0x30A0 0x30FF c,
      inRange 0x4E00 0x9FFF,
      inRange 0x0400 0x04FF]"

text \<open>The \<open>for ... of\<close> loop: the first expression that matches returns \<open>false\<close>.\<close>

fun scanScripts :: "(jschar \<Rightarrow> bool) list \<Rightarrow> jsstring \<Rightarrow> bool" where
  "scanScripts [] s = True"
| "scanScripts (scriptRegex # rest) s =
     (if testClass scriptRegex s then False else scanScripts rest s)"

definition isLikelyEnglish :: "jsstring \<Rightarrow> bool" where
  "isLikelyEnglish s = (if s = [] then True else scanScripts nonEnglishScripts s)"

text \<open>
  The scripts the specification lists, by their Unicode blocks: Hangul (Hangul Jamo
  U+1100..U+11FF, Hangul Compatibility Jamo U+3130..U+318F, Hangul Jamo Extended-A
  U+A960..U+A97F, Hangul Syllables U+AC00..U+D7AF, Hangul Jamo Extended-B U+D7B0..U+D7FF),
  Hiragana and Katakana (U+3040..U+30FF), CJK Unified Ideographs (U+4E00..U+9FFF) and
  Cyrillic (U+0400..U+04FF).
\<close>

definition spec_listedScriptUnit :: "jschar \<Rightarrow> bool" where
  "spec_listedScriptUnit c \<longleftrightarrow>
     inRange 0x1100 0x11FF c \<or> inRange 0x3130 0x318F c \<or> inRange 0xA960 0xA97F c \<or>
     inRange 0xAC00 0xD7AF c \<or> inRange 0xD7B0 0xD7FF c \<or>
     inRange 0x3040 0x309F c \<or> inRange 0x30A0 0x30FF c \<or>
     inRange 0x4E00 0x9FFF c \<or>
     inRange 0x0400 0x04FF c"

text \<open>The union of the four classes of \<open>nonEnglishScripts\<close>.\<close>

definition codeRejectedUnit :: "jschar \<Rightarrow> bool" where
  "codeRejectedUnit c \<longleftrightarrow>
     (inRange 0x3131 0xD79D c \<or> inRange 0xAC00 0xD7AF c) \<or>
     (inRange 0x3040 0x309F c \<or> inRange 0x30A0 0x30FF c) \<or>
     inRange 0x4E00 0x9FFF c \<or> inRange 0x0400 0x04FF c"

subsection \<open>parseEnglishSEOResponse\<close>

text \<open>
  The type \<open>SEOData\<close> of src/types.ts; an absent property is \<open>None\<close>. The property
  \<open>keywords\<close> is the field \<open>keywords'\<close>.
\<close>

record SEOData =
  title :: "jsstring option"
  description :: "jsstring option"
  keywords' :: "jsstring list option"

text \<open>
  Matching under the \<open>i\<close> flag without the \<open>u\<close> flag compares canonicalized code
  units: a unit is mapped to its upper case, except that a non-ASCII unit is never mapped
  to an ASCII one. The patterns of this file are ASCII, so an input unit matches a pattern
  unit exactly when it is ASCII and both have the same upper case.
\<close>

definition asciiUpper :: "jschar \<Rightarrow> jschar" where
  "asciiUpper c = (if 97 \<le> c \<and> c \<le> 122 then c - 32 else c)"

definition ciEq :: "jschar \<Rightarrow> jschar \<Rightarrow> bool" where
  "ciEq p c \<longleftrightarrow> c < 128 \<and> asciiUpper c = asciiUpper p"

text \<open>The literal \<open>label\<close> matches at the start of the input, ignoring case.\<close>

fun ciPrefix :: "jsstring \<Rightarrow> jsstring \<Rightarrow> bool" where
  "ciPrefix [] s = True"
| "ciPrefix (p # ps) [] = False"
| "ciPrefix (p # ps) (c # cs) = (ciEq p c \<and> ciPrefix ps cs)"

text \<open>
  The leftmost position where \<open>label\<close> matches; the result is the input behind the label.
\<close>

fun afterLabel :: "jsstring \<Rightarrow> jsstring \<Rightarrow> jsstring option" where
  "afterLabel label [] = (if label = [] then Some [] else None)"
| "afterLabel label (c # cs) =
     (if ciPrefix label (c # cs) then Some (drop (length label) (c # cs))
      else afterLabel label cs)"

text \<open>
  The lazy group \<open>(.*?)\<close> in front of \<open>(?:stop|$)\<close> with the \<open>s\<close> flag: the shortest
  prefix behind which \<open>stop\<close> matches or the input ends.
\<close>

fun lazyUntil :: "jsstring \<Rightarrow> jsstring \<Rightarrow> jsstring" where
  "lazyUntil stop [] = []"
| "lazyUntil stop (c # cs) = (if ciPrefix stop (c # cs) then [] else c # lazyUntil stop cs)"

definition seoTitleLabel :: jsstring where
  "seoTitleLabel = ascii ''SEO Title:''"

definition metaDescriptionLabel :: jsstring where
  "metaDescriptionLabel = ascii ''Meta Description:''"

text \<open>
  Group 1 of \<open>responseText.match(/SEO Title:(.*?)(?:\nMeta Description:|$)/is)\<close>;
  \<open>None\<close> when there is no match. The expression matches at the leftmost label, because
  the alternative \<open>$\<close> succeeds at the latest at the end of the input.
\<close>

definition titleMatch :: "jsstring \<Rightarrow> jsstring option" where
  "titleMatch responseText =
     map_option (lazyUntil (10 # metaDescriptionLabel)) (afterLabel seoTitleLabel responseText)"

text \<open>Group 1 of \<open>responseText.match(/Meta Description:(.*)$/is)\<close>: greedy, to the end.\<close>

definition descriptionMatch :: "jsstring \<Rightarrow> jsstring option" where
  "descriptionMatch responseText = afterLabel metaDescriptionLabel responseText"

text \<open>
  \<open>responseText.replace(/SEO Title:.*?(\n|$)/is, "")\<close>: the leftmost label, the units
  behind it up to the first line feed, and that line feed, are removed.
\<close>

fun removeTitleLine :: "jsstring \<Rightarrow> jsstring" where
  "removeTitleLine [] = []"
| "removeTitleLine (c # cs) =
     (if ciPrefix seoTitleLabel (c # cs)
      then drop 1 (dropWhile (\<lambda>d. d \<noteq> 10) (drop (length seoTitleLabel) (c # cs)))
      else c # removeTitleLine cs)"

text \<open>
  \<open>if (s.startsWith('"') && s.endsWith('"')) s = s.substring(1, s.length - 1)\<close>
\<close>

definition stripQuotes :: "jsstring \<Rightarrow> jsstring" where
  "stripQuotes s =
     (if s \<noteq> [] \<and> hd s = 34 \<and> last s = 34 then substring s 1 (length s - 1) else s)"

text \<open>The test \<open>m && m[1] && m[1].trim()\<close> on the result of a match.\<close>

definition matchedNonBlank :: "jsstring option \<Rightarrow> bool" where
  "matchedNonBlank m = (case m of None \<Rightarrow> False | Some g \<Rightarrow> g \<noteq> [] \<and> trim g \<noteq> [])"

definition parseEnglishSEOResponse :: "jsstring option \<Rightarrow> jsstring \<Rightarrow> SEOData" where
  "parseEnglishSEOResponse responseText originalTitle =
     (case responseText of
        None \<Rightarrow> \<lparr>title = Some originalTitle, description = None, keywords' = None\<rparr>
      | Some rt \<Rightarrow>
          if rt = [] then \<lparr>title = Some originalTitle, description = None, keywords' = None\<rparr>
          else
            let seoTitle =
                  (if matchedNonBlank (titleMatch rt)
                   then stripQuotes (trim (the (titleMatch rt)))
                   else originalTitle);
                seoDescription =
                  (if matchedNonBlank (descriptionMatch rt)
                   then Some (stripQuotes (trim (the (descriptionMatch rt))))
                   else if titleMatch rt = None \<and> trim rt \<noteq> [] then
                     (let cleanedResponse = trim (removeTitleLine rt)
                      in if cleanedResponse \<noteq> [] \<and> seoTitle = originalTitle
                         then Some (stripQuotes (substring cleanedResponse 0 160))
                         else None)
                   else None)
            in \<lparr>title = Some seoTitle, description = seoDescription, keywords' = None\<rparr>)"


subsection \<open>markdownToSEO\<close>

text \<open>
  The interface \<open>LLMConfig\<close>; an omitted property is \<open>None\<close>. The thresholds are
  word counts; the model takes them as integers.
\<close>

record LLMConfig =
  modelName :: "jsstring option"
  minContentLengthForSeo :: "int option"
  maxContentLengthForPrompt :: "int option"

definition DEFAULT_MODEL_FOR_TEXT_GENERATION :: jsstring where
  "DEFAULT_MODEL_FOR_TEXT_GENERATION = ascii ''Xenova/LaMini-Flan-T5-783M''"

text \<open>
  What the text-generation collaborator may hand back: any JavaScript value. An object
  is the list of its own properties.
\<close>

datatype jsvalue =
    JUndefined
  | JNull
  | JBoolean bool
  | JNumber int
  | JString jsstring
  | JObject "(jsstring \<times> jsvalue) list"
  | JArray "jsvalue list"

text \<open>What a call may throw: a \<open>TypeError\<close> of the runtime, or whatever the collaborator throws.\<close>

datatype exn = TypeError | Thrown jsvalue

text \<open>
  The collaborator: \<open>pipeline(task, model)\<close> resolves to a generator or rejects;
  \<open>generator(prompt, {min_new_tokens, max_new_tokens})\<close> resolves to a value or rejects.
  An awaited rejection is an exception at the \<open>await\<close>.
\<close>

type_synonym generator = "jsstring \<Rightarrow> nat \<Rightarrow> nat \<Rightarrow> exn + jsvalue"

type_synonym pipeline = "jsstring \<Rightarrow> jsstring \<Rightarrow> exn + generator"

text \<open>\<open>a || b\<close> for an optional string and for an optional number.\<close>

definition orString :: "jsstring option \<Rightarrow> jsstring \<Rightarrow> jsstring" where
  "orString a b = (case a of None \<Rightarrow> b | Some s \<Rightarrow> if s = [] then b else s)"

definition orNumber :: "int option \<Rightarrow> int \<Rightarrow> int" where
  "orNumber a b = (case a of None \<Rightarrow> b | Some n \<Rightarrow> if n = 0 then b else n)"

text \<open>
  A destructuring default \<open>const {p = d} = config\<close>: the initializer \<open>d\<close> is used only
  when the property \<open>p\<close> is \<open>undefined\<close>.
\<close>

definition destructureDefault :: "'a option \<Rightarrow> 'a \<Rightarrow> 'a" where
  "destructureDefault p d = (case p of None \<Rightarrow> d | Some v \<Rightarrow> v)"

text \<open>
  \<open>s.split(/\s+/)\<close>: the pieces between the maximal runs of whitespace, the empty piece
  in front of a leading run and behind a trailing run included.
\<close>

function splitWhitespace :: "jsstring \<Rightarrow> jsstring list" where
  "splitWhitespace [] = [[]]"
| "splitWhitespace (c # cs) =
     (if isWhiteSpace c then [] # splitWhitespace (dropWhile isWhiteSpace cs)
      else (case splitWhitespace cs of
              [] \<Rightarrow> [[c]]
            | w # ws \<Rightarrow> (c # w) # ws))"
  by pat_completeness auto
termination
  by (relation "measure length") (auto simp: less_Suc_eq_le length_dropWhile_le)

text \<open>\<open>content.split(/\s+/).filter(Boolean).length\<close>\<close>

definition wordCount :: "jsstring \<Rightarrow> nat" where
  "wordCount content = length (filter (\<lambda>w. w \<noteq> []) (splitWhitespace content))"

text \<open>
  \<open>xs.slice(0, e)\<close> for an integer \<open>e\<close>: a negative end counts from the end of the
  array.
\<close>

definition sliceFromStart :: "'a list \<Rightarrow> int \<Rightarrow> 'a list" where
  "sliceFromStart xs e =
     (let n = int (length xs); k = (if e < 0 then max (n + e) 0 else min e n)
      in take (nat k) xs)"

definition constructEnglishSEOPrompt :: "jsstring \<Rightarrow> jsstring \<Rightarrow> jsstring" where
  "constructEnglishSEOPrompt originalTitle contentExcerpt =
     trim
       ([10] @
        ascii ''Based on the original title and content excerpt of the following blog post:'' @
        [10] @ ascii ''Original Title: '' @ [34] @ originalTitle @ [34] @
        [10] @ ascii ''Content Excerpt: '' @ [34] @ contentExcerpt @ [34] @
        [10, 10] @
        ascii ''Please generate an SEO-optimized title (around 50-70 characters) and a meta description (around 100-160 characters).'' @
        [10, 10] @
        ascii ''Respond in the following format, using these exact labels. Do not include any other conversation or explanations:'' @
        [10] @ ascii ''SEO Title: [Your suggested SEO title here]'' @
        [10] @ ascii ''Meta Description: [Your suggested meta description here]'' @
        [10, 10] @
        ascii ''If it'' @ [39] @
        ascii ''s difficult to generate a better title, you can use or slightly modify the original title.'' @
        [10])"

text \<open>
  \<open>(v as any).generated_text\<close>: reading a property of \<open>undefined\<close> or \<open>null\<close> throws a
  \<open>TypeError\<close>; a value without the property gives \<open>undefined\<close>.
\<close>

definition generated_text :: "jsvalue \<Rightarrow> exn + jsvalue" where
  "generated_text v =
     (case v of
        JUndefined \<Rightarrow> Inl TypeError
      | JNull \<Rightarrow> Inl TypeError
      | JObject props \<Rightarrow>
          (case map_of props (ascii ''generated_text'') of
             None \<Rightarrow> Inr JUndefined
           | Some x \<Rightarrow> Inr x)
      | _ \<Rightarrow> Inr JUndefined)"

text \<open>
  The two branches that fill \<open>generatedText\<close>. \<open>outputs[0]\<close> is read only from a
  non-empty array.
\<close>

definition extractGeneratedText :: "jsvalue \<Rightarrow> exn + jsstring option" where
  "extractGeneratedText outputs =
     (case outputs of
        JArray items \<Rightarrow>
          (case items of
             [] \<Rightarrow> Inr None
           | first # others \<Rightarrow>
               (case generated_text first of
                  Inl e \<Rightarrow> Inl e
                | Inr (JString s) \<Rightarrow> Inr (Some s)
                | Inr other \<Rightarrow> Inr None))
      | single \<Rightarrow>
          (case generated_text single of
             Inl e \<Rightarrow> Inl e
           | Inr (JString s) \<Rightarrow> Inr (Some s)
           | Inr other \<Rightarrow> Inr None))"

text \<open>The body of the \<open>try\<close> block; \<open>Inl\<close> is an exception that leaves the block.\<close>

definition generateAndParse ::
  "pipeline \<Rightarrow> jsstring \<Rightarrow> jsstring \<Rightarrow> jsstring \<Rightarrow> exn + SEOData option" where
  "generateAndParse pipe modelName' originalTitle contentExcerpt =
     (case pipe (ascii ''text2text-generation'') modelName' of
        Inl e \<Rightarrow> Inl e
      | Inr gen \<Rightarrow>
          (case gen (constructEnglishSEOPrompt originalTitle contentExcerpt) 15 120 of
             Inl e \<Rightarrow> Inl e
           | Inr outputs \<Rightarrow>
               (case extractGeneratedText outputs of
                  Inl e \<Rightarrow> Inl e
                | Inr generatedText \<Rightarrow>
                    (case generatedText of
                       None \<Rightarrow> Inr None
                     | Some g \<Rightarrow>
                         if g \<noteq> [] then Inr (Some (parseEnglishSEOResponse (Some g) originalTitle))
                         else Inr None))))"

text \<open>The content excerpt: \<open>content.split(/\s+/).slice(0, maxContentLengthForPrompt).join(" ")\<close>.\<close>

definition contentExcerptOf :: "jsstring \<Rightarrow> int \<Rightarrow> jsstring" where
  "contentExcerptOf content maxLen = joinWith 32 (sliceFromStart (splitWhitespace content) maxLen)"

text \<open>
  The three constants of the destructuring
  \<open>const {modelName = config.modelName || DEFAULT, minContentLengthForSeo =
  config.minContentLengthForSeo || 50, maxContentLengthForPrompt =
  config.maxContentLengthForPrompt || 250} = config\<close>.
\<close>

definition resolvedModelName :: "LLMConfig \<Rightarrow> jsstring" where
  "resolvedModelName config =
     destructureDefault (modelName config)
       (orString (modelName config) DEFAULT_MODEL_FOR_TEXT_GENERATION)"

definition resolvedMinLength :: "LLMConfig \<Rightarrow> int" where
  "resolvedMinLength config =
     destructureDefault (minContentLengthForSeo config)
       (orNumber (minContentLengthForSeo config) 50)"

definition resolvedMaxLength :: "LLMConfig \<Rightarrow> int" where
  "resolvedMaxLength config =
     destructureDefault (maxContentLengthForPrompt config)
       (orNumber (maxContentLengthForPrompt config) 250)"

text \<open>
  \<open>markdownToSEO\<close>. The result \<open>Inr None\<close> is the resolved value \<open>undefined\<close>, and
  \<open>Inl e\<close> would be a rejection with \<open>e\<close>. The \<open>catch\<close> clause turns every exception of
  the \<open>try\<close> block into \<open>undefined\<close>.
\<close>

definition markdownToSEO ::
  "pipeline \<Rightarrow> jsstring \<Rightarrow> jsstring \<Rightarrow> LLMConfig \<Rightarrow> exn + SEOData option" where
  "markdownToSEO pipe originalTitle content config =
     (if \<not> isLikelyEnglish originalTitle then Inr None
      else if int (wordCount content) < resolvedMinLength config then Inr None
      else
        (case generateAndParse pipe (resolvedModelName config) originalTitle
                (contentExcerptOf content (resolvedMaxLength config)) of
           Inl error \<Rightarrow> Inr None
         | Inr r \<Rightarrow> Inr r))"

text \<open>
  The number of non-empty whitespace-delimited tokens, counted in one pass: a token
  starts at every code unit that is not whitespace and does not follow such a unit.
\<close>

fun countTokens :: "bool \<Rightarrow> jsstring \<Rightarrow> nat" where
  "countTokens inToken [] = 0"
| "countTokens inToken (c # cs) =
     (if isWhiteSpace c then countTokens False cs
      else (if inToken then 0 else 1) + countTokens True cs)"

definition spec_tokenCount :: "jsstring \<Rightarrow> nat" where
  "spec_tokenCount content = countTokens False content"

text \<open>The threshold in the words of the specification: the configured one, by default 50.\<close>

definition spec_minContentLength :: "LLMConfig \<Rightarrow> int" where
  "spec_minContentLength config =
     (case minContentLengthForSeo config of None \<Rightarrow> 50 | Some n \<Rightarrow> n)"

text \<open>A collaborator that answers every prompt with one labelled response.\<close>

definition cannedPipeline :: pipeline where
  "cannedPipeline task model =
     Inr (\<lambda>prompt minTokens maxTokens.
            Inr (JArray [JObject [(ascii ''generated_text'',
              JString (ascii ''SEO Title: A'' @ [10] @ ascii ''Meta Description: B''))]]))"

text \<open>Collaborators that fail: at load time, at invocation time, and by their response.\<close>

definition failingLoad :: pipeline where
  "failingLoad task model = Inl (Thrown (JString (ascii ''model not found'')))"

definition failingInvoke :: pipeline where
  "failingInvoke task model =
     Inr (\<lambda>prompt minTokens maxTokens. Inl (Thrown (JString (ascii ''out of memory''))))"

definition respondingWith :: "jsvalue \<Rightarrow> pipeline" where
  "respondingWith v task model = Inr (\<lambda>prompt minTokens maxTokens. Inr v)"

section \<open>The note indexer\<close>

text \<open>
  Modelled from the spec: the note indexer \<open>scanAndProcessNotes\<close>, which src/index.ts
  exports from core/scanAndProcessNotes and which is not among the sources. The model
  follows section 4.6 of the specification. The file walk hands over the enumerated
  files; the derivation of a title from a file name, which the specification does not
  detail, and the runtime's \<open>toLowerCase\<close> and the text-generation collaborator are
  parameters. Of the optional fields of a node the model keeps \<open>seo\<close> and
  \<open>lastModified\<close>; \<open>content\<close> and \<open>frontmatter\<close> take no part in the index.
\<close>

record EnumeratedFile =
  relativePath :: jsstring
  rawContent :: jsstring
  modifiedAt :: nat

text \<open>A \<open>ProcessedNode\<close>; its properties \<open>id\<close> and \<open>title\<close> are \<open>nodeId\<close> and \<open>noteTitle\<close>.\<close>

record ProcessedNode =
  nodeId :: jsstring
  noteTitle :: jsstring
  filePath :: jsstring
  fullPathSlug :: jsstring
  simpleSlug :: jsstring
  seo :: "SEOData option"
  lastModified :: "nat option"

record ScanOptions =
  slugifyFn :: "(jsstring \<Rightarrow> bool \<Rightarrow> jsstring) option"
  includeLastModified :: bool
  generateSeo :: bool
  llmConfig :: "LLMConfig option"

record Collaborators =
  toLowerCase :: "jsstring \<Rightarrow> jsstring"
  titleOfFilename :: "jsstring \<Rightarrow> jsstring"
  textGeneration :: pipeline

record ScanResult =
  allNotes :: "ProcessedNode list"
  notesMapByFullPathSlug :: "jsstring \<rightharpoonup> ProcessedNode"
  notesMapBySimpleSlug :: "jsstring \<rightharpoonup> jsstring set"

text \<open>
  Modelled from the spec: the slug function of the indexer, the configured override
  \<open>slugifyFn\<close> or else the slug generator of section 4.1.
\<close>

definition slugOf :: "Collaborators \<Rightarrow> ScanOptions \<Rightarrow> jsstring \<Rightarrow> bool \<Rightarrow> jsstring" where
  "slugOf env opts s isFullPath =
     (case slugifyFn opts of
        None \<Rightarrow> filenameToSlug (toLowerCase env) s
      | Some f \<Rightarrow> f s isFullPath)"

text \<open>
  Modelled from the spec: the file name without its directories, the last segment of the
  path.
\<close>

definition filenameOf :: "jsstring \<Rightarrow> jsstring" where
  "filenameOf path = last (splitOn slash path)"

text \<open>
  Modelled from the spec: SEO generation for one note, invoked when it is enabled, with
  the configured thresholds; a skipped result attaches nothing.
\<close>

definition seoFor :: "Collaborators \<Rightarrow> ScanOptions \<Rightarrow> jsstring \<Rightarrow> jsstring \<Rightarrow> SEOData option" where
  "seoFor env opts noteTitle' body =
     (if generateSeo opts then
        (case markdownToSEO (textGeneration env) noteTitle' body
                (case llmConfig opts of
                   None \<Rightarrow> \<lparr>modelName = None, minContentLengthForSeo = None,
                             maxContentLengthForPrompt = None\<rparr>
                 | Some cfg \<Rightarrow> cfg) of
           Inr (Some d) \<Rightarrow> Some d
         | _ \<Rightarrow> None)
      else None)"

text \<open>
  Modelled from the spec: the node of one enumerated file. \<open>filePath\<close> is the relative
  path in forward-slash form, \<open>fullPathSlug\<close> the slug of \<open>filePath\<close>, \<open>simpleSlug\<close> the
  slug of the file name, and \<open>id\<close> is \<open>fullPathSlug\<close>.
\<close>

definition processFile :: "Collaborators \<Rightarrow> ScanOptions \<Rightarrow> EnumeratedFile \<Rightarrow> ProcessedNode" where
  "processFile env opts f =
     (let path = replaceEach backslash slash (relativePath f);
          name = filenameOf path;
          full = slugOf env opts path True
      in \<lparr>nodeId = full,
          noteTitle = titleOfFilename env name,
          filePath = path,
          fullPathSlug = full,
          simpleSlug = slugOf env opts name False,
          seo = seoFor env opts (titleOfFilename env name) (rawContent f),
          lastModified = (if includeLastModified opts then Some (modifiedAt f) else None)\<rparr>)"

text \<open>
  Modelled from the spec: inserting a node keyed by its full-path slug; a later duplicate
  key overwrites the earlier one.
\<close>

definition addByFullPathSlug ::
  "(jsstring \<rightharpoonup> ProcessedNode) \<Rightarrow> ProcessedNode \<Rightarrow> (jsstring \<rightharpoonup> ProcessedNode)" where
  "addByFullPathSlug m n = m(fullPathSlug n \<mapsto> n)"

text \<open>
  Modelled from the spec: inserting a node's full-path slug into the set keyed by its
  simple slug, creating the set on first encounter.
\<close>

definition addBySimpleSlug ::
  "(jsstring \<rightharpoonup> jsstring set) \<Rightarrow> ProcessedNode \<Rightarrow> (jsstring \<rightharpoonup> jsstring set)" where
  "addBySimpleSlug m n =
     (case m (simpleSlug n) of
        None \<Rightarrow> m(simpleSlug n \<mapsto> {fullPathSlug n})
      | Some slugs \<Rightarrow> m(simpleSlug n \<mapsto> insert (fullPathSlug n) slugs))"

text \<open>
  Modelled from the spec: the top-level scan operation. The notes are assembled in the
  order of the enumeration, and both maps are built by inserting the nodes in that order.
\<close>

definition scanAndProcessNotes ::
  "Collaborators \<Rightarrow> ScanOptions \<Rightarrow> EnumeratedFile list \<Rightarrow> ScanResult" where
  "scanAndProcessNotes env opts files =
     (let notes = map (processFile env opts) files
      in \<lparr>allNotes = notes,
          notesMapByFullPathSlug = foldl addByFullPathSlug Map.empty notes,
          notesMapBySimpleSlug = foldl addBySimpleSlug Map.empty notes\<rparr>)"

text \<open>An environment and options for concrete scans: the default slug generator, no SEO.\<close>

definition plainEnv :: Collaborators where
  "plainEnv =
     \<lparr>toLowerCase = asciiToLowerCase, titleOfFilename = removeMdExtension,
      textGeneration = failingLoad\<rparr>"

definition defaultOptions :: ScanOptions where
  "defaultOptions =
     \<lparr>slugifyFn = None, includeLastModified = False, generateSeo = False, llmConfig = None\<rparr>"

definition fileAt :: "jsstring \<Rightarrow> EnumeratedFile" where
  "fileAt path = \<lparr>relativePath = path, rawContent = [], modifiedAt = 0\<rparr>"

section \<open>Properties of the slug generator\<close>

subsection \<open>Regular-expression replacements as list functions\<close>

lemma filter_dropWhile_not: "filter (\<lambda>c. \<not> P c) (dropWhile P cs) = filter (\<lambda>c. \<not> P c) cs"
  by (induction cs) auto

lemma replaceRuns_empty: "replaceRuns P [] s = filter (\<lambda>c. \<not> P c) s"
  by (induction P "[]::jsstring" s rule: replaceRuns.induct) (auto simp: filter_dropWhile_not)

lemma whitespaceRuns_both:
  "whitespaceRunsToHyphen False s = replaceRuns isWhiteSpace [hyphen] s \<and>
   whitespaceRunsToHyphen True s = replaceRuns isWhiteSpace [hyphen] (dropWhile isWhiteSpace s)"
  by (induction s) auto

lemma squeeze_hyphen_Cons:
  "squeezeHyphens (hyphen # cs) = hyphen # squeezeHyphens (dropWhile (\<lambda>c. c = hyphen) cs)"
  by (induction cs) auto

lemma squeeze_other_Cons: "c \<noteq> hyphen \<Longrightarrow> squeezeHyphens (c # cs) = c # squeezeHyphens cs"
  by (cases cs) auto

lemma replaceRuns_hyphen: "replaceRuns (\<lambda>c. c = hyphen) [hyphen] s = squeezeHyphens s"
  by (induction "\<lambda>c::jschar. c = hyphen" "[hyphen]" s rule: replaceRuns.induct)
     (auto simp: squeeze_hyphen_Cons squeeze_other_Cons)

lemma hasDouble_Cons:
  "hasDoubleHyphen (c # cs) \<longleftrightarrow> (c = hyphen \<and> cs \<noteq> [] \<and> hd cs = hyphen) \<or> hasDoubleHyphen cs"
  by (cases cs) auto

lemma hasDouble_snoc:
  "hasDoubleHyphen (xs @ [c]) \<longleftrightarrow> hasDoubleHyphen xs \<or> (xs \<noteq> [] \<and> last xs = hyphen \<and> c = hyphen)"
  by (induction xs) (auto simp: hasDouble_Cons hd_append)

lemma hasDouble_rev: "hasDoubleHyphen (rev s) = hasDoubleHyphen s"
  by (induction s) (auto simp: hasDouble_Cons hasDouble_snoc last_rev)

lemma hasDouble_dropWhile: "hasDoubleHyphen (dropWhile P s) \<Longrightarrow> hasDoubleHyphen s"
  by (induction s) (auto simp: hasDouble_Cons split: if_splits)

lemma squeeze_head: "\<exists>r. squeezeHyphens (d # cs) = d # r"
  by (induction cs arbitrary: d) auto

lemma squeeze_no_double: "\<not> hasDoubleHyphen (squeezeHyphens s)"
proof (induction s rule: squeezeHyphens.induct)
  case (1 c d cs)
  obtain r where r: "squeezeHyphens (d # cs) = d # r"
    using squeeze_head by blast
  with 1 show ?case by (auto simp: hasDouble_Cons)
qed auto

lemma squeeze_fixed: "\<not> hasDoubleHyphen s \<Longrightarrow> squeezeHyphens s = s"
  by (induction s rule: squeezeHyphens.induct) auto

lemma dropWhile_id_hd: "xs \<noteq> [] \<Longrightarrow> \<not> P (hd xs) \<Longrightarrow> dropWhile P xs = xs"
  by (cases xs) auto

lemma dropEnd_prefix: "\<exists>t. s = rev (dropWhile P (rev s)) @ t"
proof -
  have "rev (dropWhile P (rev s)) @ rev (takeWhile P (rev s)) =
        rev (takeWhile P (rev s) @ dropWhile P (rev s))"
    by (simp only: rev_append)
  also have "\<dots> = rev (rev s)" by (simp only: takeWhile_dropWhile_id)
  also have "\<dots> = s" by simp
  finally have "s = rev (dropWhile P (rev s)) @ rev (takeWhile P (rev s))" by (rule sym)
  then show ?thesis ..
qed

lemma stripHyphens_no_double:
  assumes "\<not> hasDoubleHyphen s" shows "\<not> hasDoubleHyphen (stripHyphens s)"
proof
  assume "hasDoubleHyphen (stripHyphens s)"
  then have "hasDoubleHyphen (dropWhile (\<lambda>c. c = hyphen) (rev (dropWhile (\<lambda>c. c = hyphen) s)))"
    by (simp add: stripHyphens_def hasDouble_rev)
  then have "hasDoubleHyphen (rev (dropWhile (\<lambda>c. c = hyphen) s))"
    by (rule hasDouble_dropWhile)
  then have "hasDoubleHyphen (dropWhile (\<lambda>c. c = hyphen) s)"
    by (simp add: hasDouble_rev)
  then have "hasDoubleHyphen s" by (rule hasDouble_dropWhile)
  with assms show False by simp
qed

lemma stripHyphens_hd:
  assumes ne: "stripHyphens s \<noteq> []" shows "hd (stripHyphens s) \<noteq> hyphen"
proof -
  let ?d = "dropWhile (\<lambda>c. c = hyphen) s"
  obtain t where t: "?d = stripHyphens s @ t"
    using dropEnd_prefix [of ?d "\<lambda>c. c = hyphen"] by (auto simp: stripHyphens_def)
  with ne have dne: "?d \<noteq> []" by auto
  have "hd ?d \<noteq> hyphen" using hd_dropWhile [OF dne] .
  moreover have "hd ?d = hd (stripHyphens s)" using t ne by (simp add: hd_append)
  ultimately show ?thesis by simp
qed

lemma stripHyphens_last:
  assumes ne: "stripHyphens s \<noteq> []" shows "last (stripHyphens s) \<noteq> hyphen"
proof -
  let ?e = "dropWhile (\<lambda>c. c = hyphen) (rev (dropWhile (\<lambda>c. c = hyphen) s))"
  from ne have ene: "?e \<noteq> []" by (simp add: stripHyphens_def)
  have "hd ?e \<noteq> hyphen" using hd_dropWhile [OF ene] .
  moreover have "last (stripHyphens s) = hd ?e"
    using ene by (simp add: stripHyphens_def last_rev)
  ultimately show ?thesis by simp
qed

lemma stripHyphens_fixed:
  assumes "s \<noteq> []" "hd s \<noteq> hyphen" "last s \<noteq> hyphen" shows "stripHyphens s = s"
proof -
  have 1: "dropWhile (\<lambda>c. c = hyphen) s = s"
    using assms by (simp add: dropWhile_id_hd)
  have "rev s \<noteq> []" "hd (rev s) \<noteq> hyphen" using assms by (simp_all add: hd_rev)
  then have 2: "dropWhile (\<lambda>c. c = hyphen) (rev s) = rev s"
    by (simp add: dropWhile_id_hd)
  show ?thesis by (simp add: stripHyphens_def 1 2)
qed

lemma stripHyphens_set: "x \<in> set (stripHyphens s) \<Longrightarrow> x \<in> set s"
proof -
  assume "x \<in> set (stripHyphens s)"
  then have "x \<in> set (dropWhile (\<lambda>c. c = hyphen) (rev (dropWhile (\<lambda>c. c = hyphen) s)))"
    by (simp add: stripHyphens_def)
  then have "x \<in> set (rev (dropWhile (\<lambda>c. c = hyphen) s))" by (rule set_dropWhileD)
  then have "x \<in> set (dropWhile (\<lambda>c. c = hyphen) s)" by simp
  then show ?thesis by (rule set_dropWhileD)
qed

lemma replaceRuns_whitespace:
  "replaceRuns isWhiteSpace [hyphen] s = whitespaceRunsToHyphen False s"
  by (simp add: whitespaceRuns_both)

lemma slugSegment_pipeline:
  "slugSegment lc seg =
     stripHyphens
       (squeezeHyphens
         (filter slugUnit
           (map (\<lambda>c. if c = underscore then hyphen else c)
             (whitespaceRunsToHyphen False (lc (trim seg))))))"
  by (simp add: slugSegment_def replaceRuns_hyphen replaceRuns_empty replaceEach_def
      replaceRuns_whitespace)

lemma spec_dropLeading_dropWhile: "spec_dropLeading P s = dropWhile P s"
  by (induction s) auto

lemma spec_dropTrailing_dropWhile: "spec_dropTrailing P s = rev (dropWhile P (rev s))"
proof (induction s)
  case Nil
  show ?case by simp
next
  case (Cons c cs)
  show ?case
  proof (cases "\<forall>x \<in> set cs. P x")
    case True
    then have a: "dropWhile P (rev cs) = []" by simp
    have "dropWhile P (rev cs @ [c]) = dropWhile P [c]"
      by (rule dropWhile_append2) (use True in simp)
    then have b: "dropWhile P (rev cs @ [c]) = (if P c then [] else [c])" by simp
    show ?thesis using Cons by (simp add: a b)
  next
    case False
    then obtain x where x: "x \<in> set (rev cs)" "\<not> P x" by auto
    then have a: "dropWhile P (rev cs @ [c]) = dropWhile P (rev cs) @ [c]"
      by (rule dropWhile_append1)
    from x have "dropWhile P (rev cs) \<noteq> []" by (auto simp: dropWhile_eq_Nil_conv)
    then obtain d ds where "rev (dropWhile P (rev cs)) = d # ds"
      by (cases "rev (dropWhile P (rev cs))") auto
    with Cons a show ?thesis by simp
  qed
qed

lemma trim_spec: "trim s = spec_trimWhitespace s"
  by (simp add: trim_def spec_trimWhitespace_def spec_dropLeading_dropWhile
      spec_dropTrailing_dropWhile)

lemma stripHyphens_spec: "stripHyphens s = spec_stripHyphenEnds s"
  by (simp add: stripHyphens_def spec_stripHyphenEnds_def spec_dropLeading_dropWhile
      spec_dropTrailing_dropWhile)

lemma slugUnit_spec: "slugUnit c = spec_allowedUnit c"
  by (auto simp: slugUnit_def spec_allowedUnit_def spec_lowercaseLatin_def spec_digit_def
      spec_hangulSyllable_def)

lemma slugSegment_spec: "slugSegment lc seg = spec_normalizeSegment lc seg"
proof -
  have "slugUnit = spec_allowedUnit" by (rule ext) (rule slugUnit_spec)
  then show ?thesis
    by (simp add: slugSegment_pipeline spec_normalizeSegment_def trim_spec stripHyphens_spec)
qed

lemma removeMdExtension_spec: "removeMdExtension s = spec_stripMarkdownExtension s"
proof (cases "3 \<le> length s")
  case True
  have "take 3 (rev s) = rev (drop (length s - 3) s)" by (simp add: take_rev)
  moreover have "rev (drop 3 (rev s)) = take (length s - 3) s" by (simp add: drop_rev)
  ultimately show ?thesis using True
    by (auto simp: removeMdExtension_def spec_stripMarkdownExtension_def)
next
  case False
  then have "length (take 3 (rev s)) < 3" by simp
  then have "take 3 (rev s) \<noteq> [100, 109, 46]" by auto
  with False show ?thesis
    by (simp add: removeMdExtension_def spec_stripMarkdownExtension_def)
qed


subsection \<open>split and join\<close>

lemma splitOn_nonempty: "splitOn sep s \<noteq> []"
  by (induction s) (auto split: list.splits)

lemma joinWith_Cons: "ys \<noteq> [] \<Longrightarrow> joinWith sep (x # ys) = x @ sep # joinWith sep ys"
  by (cases ys) auto

lemma joinWith_Cons_Cons: "joinWith sep ((c # w) # ws) = c # joinWith sep (w # ws)"
  by (cases ws) auto

lemma joinWith_splitOn: "joinWith sep (splitOn sep s) = s"
proof (induction s)
  case Nil
  show ?case by simp
next
  case (Cons c cs)
  show ?case
  proof (cases "c = sep")
    case True
    then show ?thesis using Cons by (simp add: joinWith_Cons splitOn_nonempty)
  next
    case False
    obtain w ws where w: "splitOn sep cs = w # ws"
      using splitOn_nonempty [of sep cs] by (cases "splitOn sep cs") auto
    with False Cons show ?thesis by (simp add: joinWith_Cons_Cons)
  qed
qed

lemma splitOn_no_sep: "sep \<notin> set x \<Longrightarrow> splitOn sep x = [x]"
  by (induction x) auto

lemma splitOn_append_sep:
  "sep \<notin> set x \<Longrightarrow> splitOn sep (x @ sep # r) = x # splitOn sep r"
  by (induction x) auto

lemma splitOn_joinWith:
  "segs \<noteq> [] \<Longrightarrow> \<forall>s \<in> set segs. sep \<notin> set s \<Longrightarrow> splitOn sep (joinWith sep segs) = segs"
proof (induction sep segs rule: joinWith.induct)
  case (1 sep)
  then show ?case by simp
next
  case (2 sep x)
  then show ?case by (simp add: splitOn_no_sep)
next
  case (3 sep x y ys)
  then show ?case by (simp add: splitOn_append_sep)
qed

lemma splitOn_set: "seg \<in> set (splitOn sep s) \<Longrightarrow> set seg \<subseteq> set s"
proof (induction s arbitrary: seg)
  case Nil
  then show ?case by simp
next
  case (Cons a s)
  obtain w ws where w: "splitOn sep s = w # ws"
    using splitOn_nonempty [of sep s] by (cases "splitOn sep s") auto
  have IHw: "set w \<subseteq> set s" using Cons.IH [of w] w by simp
  have IHws: "\<And>t. t \<in> set ws \<Longrightarrow> set t \<subseteq> set s" using Cons.IH w by simp
  show ?case
  proof (cases "a = sep")
    case True
    with Cons.prems w have "seg = [] \<or> seg = w \<or> seg \<in> set ws" by auto
    with IHw IHws show ?thesis by auto
  next
    case False
    with Cons.prems w have "seg = a # w \<or> seg \<in> set ws" by auto
    with IHw IHws show ?thesis by auto
  qed
qed

lemma joinWith_set: "c \<in> set (joinWith sep segs) \<Longrightarrow> c = sep \<or> (\<exists>s \<in> set segs. c \<in> set s)"
  by (induction sep segs rule: joinWith.induct) auto

lemma joinWith_nonempty: "segs \<noteq> [] \<Longrightarrow> hd segs \<noteq> [] \<Longrightarrow> joinWith sep segs \<noteq> []"
  by (induction sep segs rule: joinWith.induct) auto

lemma spec_splitFrom_splitOn:
  "spec_splitFrom current s =
     (rev current @ hd (splitOn slash s)) # tl (splitOn slash s)"
proof (induction s arbitrary: current)
  case Nil
  show ?case by simp
next
  case (Cons c cs)
  obtain w ws where w: "splitOn slash cs = w # ws"
    using splitOn_nonempty [of slash cs] by (cases "splitOn slash cs") auto
  show ?case
  proof (cases "c = slash")
    case True
    then show ?thesis using Cons [of "[]"] w by simp
  next
    case False
    then show ?thesis using Cons [of "c # current"] w by simp
  qed
qed

lemma splitOn_spec: "splitOn slash s = spec_splitOnSlash s"
proof -
  obtain w ws where w: "splitOn slash s = w # ws"
    using splitOn_nonempty [of slash s] by (cases "splitOn slash s") auto
  then show ?thesis by (simp add: spec_splitOnSlash_def spec_splitFrom_splitOn)
qed

lemma joinWith_spec: "joinWith slash segs = spec_joinWithSlash segs"
  by (induction slash segs rule: joinWith.induct) (simp_all add: spec_joinWithSlash_def)

lemma filenameToSlug_spec: "filenameToSlug lc x = slugify_spec lc x"
proof -
  have "slugSegment lc = spec_normalizeSegment lc"
    by (rule ext) (rule slugSegment_spec)
  then show ?thesis
    by (simp add: filenameToSlug_def slugify_spec_def removeMdExtension_spec replaceEach_def
        splitOn_spec joinWith_spec)
qed

subsection \<open>Segments in slug form\<close>

lemma slugUnit_facts:
  "slugUnit c \<Longrightarrow> \<not> isWhiteSpace c"
  "slugUnit c \<Longrightarrow> c \<noteq> underscore"
  "slugUnit c \<Longrightarrow> c \<noteq> slash"
  "slugUnit c \<Longrightarrow> c \<noteq> backslash"
  "slugUnit c \<Longrightarrow> c \<noteq> 46"
  "slugUnit c \<Longrightarrow> plainUnit c"
  "slugUnit c \<Longrightarrow> asciiLower c = c"
  by (auto simp: slugUnit_def isWhiteSpace_def plainUnit_def asciiLower_def)

lemma dropWhile_none: "\<forall>c \<in> set s. \<not> P c \<Longrightarrow> dropWhile P s = s"
  by (cases s) auto

lemma replaceRuns_none: "\<forall>c \<in> set s. \<not> P c \<Longrightarrow> replaceRuns P r s = s"
  by (induction s) auto

lemma trim_none: "\<forall>c \<in> set s. \<not> isWhiteSpace c \<Longrightarrow> trim s = s"
  by (simp add: trim_def dropWhile_none)

lemma trim_set: "set (trim s) \<subseteq> set s"
proof
  fix x assume "x \<in> set (trim s)"
  then have "x \<in> set (dropWhile isWhiteSpace (rev (dropWhile isWhiteSpace s)))"
    by (simp add: trim_def)
  then have "x \<in> set (rev (dropWhile isWhiteSpace s))" by (rule set_dropWhileD)
  then have "x \<in> set (dropWhile isWhiteSpace s)" by simp
  then show "x \<in> set s" by (rule set_dropWhileD)
qed

lemma squeeze_set: "set (squeezeHyphens s) \<subseteq> set s"
  by (induction s rule: squeezeHyphens.induct) auto

lemma slugSegment_units: "list_all slugUnit (slugSegment lc seg)"
proof -
  let ?f = "filter slugUnit (map (\<lambda>c. if c = underscore then hyphen else c)
             (whitespaceRunsToHyphen False (lc (trim seg))))"
  have "set (slugSegment lc seg) \<subseteq> set (squeezeHyphens ?f)"
    using stripHyphens_set by (auto simp: slugSegment_pipeline)
  also have "\<dots> \<subseteq> set ?f" by (rule squeeze_set)
  finally show ?thesis by (auto simp: list_all_iff)
qed

lemma slugSegment_form: "slugSegment lc seg \<noteq> [] \<Longrightarrow> slugSegmentForm (slugSegment lc seg)"
proof -
  assume ne: "slugSegment lc seg \<noteq> []"
  let ?q = "squeezeHyphens (filter slugUnit (map (\<lambda>c. if c = underscore then hyphen else c)
             (whitespaceRunsToHyphen False (lc (trim seg)))))"
  have eq: "slugSegment lc seg = stripHyphens ?q"
    by (rule slugSegment_pipeline)
  have "\<not> hasDoubleHyphen (stripHyphens ?q)"
    by (rule stripHyphens_no_double) (rule squeeze_no_double)
  moreover have "list_all slugUnit (slugSegment lc seg)"
    by (rule slugSegment_units)
  moreover have "hd (stripHyphens ?q) \<noteq> hyphen" "last (stripHyphens ?q) \<noteq> hyphen"
    using ne eq stripHyphens_hd [of ?q] stripHyphens_last [of ?q] by simp_all
  ultimately show ?thesis using ne eq by (simp add: slugSegmentForm_def)
qed

lemma slugSegment_fixed:
  assumes lc: "toLowerCase_contract lc" and form: "slugSegmentForm s"
  shows "slugSegment lc s = s"
proof -
  from form have units: "\<forall>c \<in> set s. slugUnit c"
    by (simp add: slugSegmentForm_def list_all_iff)
  have 1: "trim s = s" using units by (simp add: trim_none slugUnit_facts)
  have "list_all plainUnit s" using units by (simp add: list_all_iff slugUnit_facts)
  with lc have "lc s = map asciiLower s" by (simp add: toLowerCase_contract_def)
  also have "\<dots> = s" using units by (simp add: map_idI slugUnit_facts)
  finally have 2: "lc s = s" .
  have 3: "replaceRuns isWhiteSpace [hyphen] s = s"
    using units by (simp add: replaceRuns_none slugUnit_facts)
  have 4: "replaceEach underscore hyphen s = s"
    unfolding replaceEach_def using units by (simp add: map_idI slugUnit_facts)
  have 5: "replaceRuns (\<lambda>c. \<not> slugUnit c) [] s = s"
    using units by (simp add: replaceRuns_none)
  have 6: "replaceRuns (\<lambda>c. c = hyphen) [hyphen] s = s"
    using form by (simp add: replaceRuns_hyphen squeeze_fixed slugSegmentForm_def)
  have 7: "stripHyphens s = s"
    using form by (simp add: stripHyphens_fixed slugSegmentForm_def)
  show ?thesis by (simp add: slugSegment_def 1 2 3 4 5 6 7)
qed

lemma removeMdExtension_none: "46 \<notin> set s \<Longrightarrow> removeMdExtension s = s"
proof -
  assume a: "46 \<notin> set s"
  have "drop (length s - 3) s \<noteq> [46, 109, 100]"
  proof
    assume "drop (length s - 3) s = [46, 109, 100]"
    then have "46 \<in> set (drop (length s - 3) s)" by simp
    then have "46 \<in> set s" by (rule in_set_dropD)
    with a show False by simp
  qed
  then show ?thesis by (simp add: removeMdExtension_def)
qed

lemma slugForm_units:
  assumes "slugForm y" "c \<in> set y" shows "slugUnit c \<or> c = slash"
proof -
  from assms have segs: "list_all slugSegmentForm (splitOn slash y)"
    by (auto simp: slugForm_def)
  have "c \<in> set (joinWith slash (splitOn slash y))" using assms by (simp add: joinWith_splitOn)
  then consider "c = slash" | s where "s \<in> set (splitOn slash y)" "c \<in> set s"
    using joinWith_set by blast
  then show ?thesis
  proof cases
    case 1
    then show ?thesis by simp
  next
    case 2
    with segs have "slugSegmentForm s" by (simp add: list_all_iff)
    with 2 show ?thesis by (simp add: slugSegmentForm_def list_all_iff)
  qed
qed

lemma filenameToSlug_fixed:
  assumes lc: "toLowerCase_contract lc" and form: "slugForm y"
  shows "filenameToSlug lc y = y"
proof (cases "y = []")
  case True
  then show ?thesis by (simp add: filenameToSlug_def)
next
  case False
  with form have segs: "list_all slugSegmentForm (splitOn slash y)"
    by (simp add: slugForm_def)
  have u: "\<And>c. c \<in> set y \<Longrightarrow> slugUnit c \<or> c = slash"
    using slugForm_units [OF form] .
  have "46 \<notin> set y" using u slugUnit_facts(5) by fastforce
  then have 1: "removeMdExtension y = y" by (rule removeMdExtension_none)
  have "\<forall>c \<in> set y. c \<noteq> backslash" using u slugUnit_facts(4) by fastforce
  then have 2: "replaceEach backslash slash y = y"
    by (simp add: replaceEach_def map_idI)
  have 3: "map (slugSegment lc) (splitOn slash y) = splitOn slash y"
    using segs lc by (simp add: map_idI list_all_iff slugSegment_fixed)
  have 4: "filter (\<lambda>segment. segment \<noteq> []) (splitOn slash y) = splitOn slash y"
    using segs by (simp add: list_all_iff slugSegmentForm_def)
  show ?thesis using False by (simp add: filenameToSlug_def 1 2 3 4 joinWith_splitOn)
qed

lemma filenameToSlug_form: "slugForm (filenameToSlug lc x)"
proof (cases "x = []")
  case True
  then show ?thesis by (simp add: filenameToSlug_def slugForm_def)
next
  case False
  define segs where "segs = filter (\<lambda>segment. length segment > 0)
      (map (slugSegment lc) (splitOn slash (replaceEach backslash slash (removeMdExtension x))))"
  have out: "filenameToSlug lc x = joinWith slash segs"
    using False by (simp add: filenameToSlug_def segs_def)
  have forms: "\<forall>s \<in> set segs. slugSegmentForm s"
    by (auto simp: segs_def slugSegment_form)
  show ?thesis
  proof (cases "segs = []")
    case True
    with out show ?thesis by (simp add: slugForm_def)
  next
    case False
    have "\<forall>s \<in> set segs. slash \<notin> set s"
      using forms slugUnit_facts(3) by (fastforce simp: slugSegmentForm_def list_all_iff)
    with False have "splitOn slash (joinWith slash segs) = segs"
      by (simp add: splitOn_joinWith)
    with forms out show ?thesis by (simp add: slugForm_def list_all_iff)
  qed
qed

subsection \<open>The contract of toLowerCase on plain text\<close>

lemma asciiToLowerCase_contract: "toLowerCase_contract asciiToLowerCase"
  by (simp add: toLowerCase_contract_def asciiToLowerCase_def)

lemma replaceEach_plain:
  "list_all plainUnit s \<Longrightarrow> list_all plainUnit (replaceEach backslash slash s)"
  by (induction s) (auto simp: replaceEach_def plainUnit_def)

lemma removeMdExtension_set: "set (removeMdExtension s) \<subseteq> set s"
  by (auto simp: removeMdExtension_def dest: in_set_takeD)

lemma filenameToSlug_plain:
  assumes lc: "toLowerCase_contract lc" and plain: "list_all plainUnit x"
  shows "filenameToSlug lc x = filenameToSlug asciiToLowerCase x"
proof -
  let ?segs = "splitOn slash (replaceEach backslash slash (removeMdExtension x))"
  have "list_all plainUnit (removeMdExtension x)"
    using plain removeMdExtension_set [of x] by (auto simp: list_all_iff)
  then have p: "list_all plainUnit (replaceEach backslash slash (removeMdExtension x))"
    by (rule replaceEach_plain)
  have "slugSegment lc seg = slugSegment asciiToLowerCase seg" if "seg \<in> set ?segs" for seg
  proof -
    have "set (trim seg) \<subseteq> set (replaceEach backslash slash (removeMdExtension x))"
      using trim_set [of seg] splitOn_set [OF that] by blast
    with p have "list_all plainUnit (trim seg)" by (auto simp: list_all_iff)
    with lc have "lc (trim seg) = asciiToLowerCase (trim seg)"
      by (simp add: toLowerCase_contract_def asciiToLowerCase_def)
    then show ?thesis by (simp add: slugSegment_def)
  qed
  then have m: "map (slugSegment lc) ?segs = map (slugSegment asciiToLowerCase) ?segs"
    by simp
  show ?thesis by (simp only: filenameToSlug_def m)
qed

lemmas slug_eval = filenameToSlug_def ascii_def asciiToLowerCase_def asciiLower_def
  removeMdExtension_def replaceEach_def slugSegment_def trim_def isWhiteSpace_def slugUnit_def
  stripHyphens_def

text \<open>
  C8. The slug generator performs the normalization of section 4.1 of the specification:
  for every input it returns what the steps of the specification return (strip the
  extension, normalize backslashes, split on the slash; per segment trim, lowercase,
  whitespace runs and underscores to a hyphen, delete every character outside the slug
  alphabet, collapse and strip hyphens; drop empty segments and rejoin). In particular
  "My Folder/Another_Post with_Spaces.md" becomes "my-folder/another-post-with-spaces",
  and the Hangul file name U+D55C U+AE00 SPACE U+D30C U+C77C SPACE U+C774 U+B984 ".md"
  becomes the same syllables joined by hyphens. Step by step: "-a-.md" becomes "a"
  (hyphens stripped at both ends), "a--b__c  d" becomes "a-b-c-d" (repeated hyphens,
  underscores and a whitespace run collapsed), "Q&A (v2)!.md" becomes "qa-v2" (characters
  outside the alphabet deleted), "a//b/ /c" becomes "a/b/c" (empty segments dropped),
  "  Pad  /-.md" becomes "pad" (a segment trimmed, a segment of hyphens emptied), and
  "x", a backslash and "Y.md" become "x/y".
\<close>

theorem filenameToSlug_normalization:
  assumes "toLowerCase_contract lc"
  shows "filenameToSlug lc x = slugify_spec lc x \<and>
         filenameToSlug lc (ascii ''My Folder/Another_Post with_Spaces.md'') =
           ascii ''my-folder/another-post-with-spaces'' \<and>
         filenameToSlug lc ([54620, 44544, 32, 54028, 51068, 32, 51060, 47492] @ ascii ''.md'') =
           [54620, 44544, hyphen, 54028, 51068, hyphen, 51060, 47492] \<and>
         filenameToSlug lc (ascii ''-a-.md'') = ascii ''a'' \<and>
         filenameToSlug lc (ascii ''a--b__c  d'') = ascii ''a-b-c-d'' \<and>
         filenameToSlug lc (ascii ''Q&A (v2)!.md'') = ascii ''qa-v2'' \<and>
         filenameToSlug lc (ascii ''a//b/ /c'') = ascii ''a/b/c'' \<and>
         filenameToSlug lc (ascii ''  Pad  /-.md'') = ascii ''pad'' \<and>
         filenameToSlug lc (ascii ''x'' @ [backslash] @ ascii ''Y.md'') = ascii ''x/y''"
proof -
  have plain: "list_all plainUnit (ascii ''My Folder/Another_Post with_Spaces.md'')"
    "list_all plainUnit ([54620, 44544, 32, 54028, 51068, 32, 51060, 47492] @ ascii ''.md'')"
    "list_all plainUnit (ascii ''-a-.md'')"
    "list_all plainUnit (ascii ''a--b__c  d'')"
    "list_all plainUnit (ascii ''Q&A (v2)!.md'')"
    "list_all plainUnit (ascii ''a//b/ /c'')"
    "list_all plainUnit (ascii ''  Pad  /-.md'')"
    "list_all plainUnit (ascii ''x'' @ [backslash] @ ascii ''Y.md'')"
    by (simp_all add: ascii_def plainUnit_def)
  have e1: "filenameToSlug asciiToLowerCase (ascii ''My Folder/Another_Post with_Spaces.md'') =
           ascii ''my-folder/another-post-with-spaces''"
    by (simp add: slug_eval)
  have e2: "filenameToSlug asciiToLowerCase
              ([54620, 44544, 32, 54028, 51068, 32, 51060, 47492] @ ascii ''.md'') =
            [54620, 44544, hyphen, 54028, 51068, hyphen, 51060, 47492]"
    by (simp add: slug_eval)
  have e3: "filenameToSlug asciiToLowerCase (ascii ''-a-.md'') = ascii ''a''"
    by (simp add: slug_eval)
  have e4: "filenameToSlug asciiToLowerCase (ascii ''a--b__c  d'') = ascii ''a-b-c-d''"
    by (simp add: slug_eval)
  have e5: "filenameToSlug asciiToLowerCase (ascii ''Q&A (v2)!.md'') = ascii ''qa-v2''"
    by (simp add: slug_eval)
  have e6: "filenameToSlug asciiToLowerCase (ascii ''a//b/ /c'') = ascii ''a/b/c''"
    by (simp add: slug_eval)
  have e7: "filenameToSlug asciiToLowerCase (ascii ''  Pad  /-.md'') = ascii ''pad''"
    by (simp add: slug_eval)
  have e8: "filenameToSlug asciiToLowerCase (ascii ''x'' @ [backslash] @ ascii ''Y.md'') =
            ascii ''x/y''"
    by (simp add: slug_eval)
  show ?thesis
    using filenameToSlug_spec [of lc x] plain [THEN filenameToSlug_plain [OF assms]]
    by (simp only: e1 e2 e3 e4 e5 e6 e7 e8 simp_thms)
qed

theorem filenameToSlug_normalization_witness:
  "toLowerCase_contract asciiToLowerCase \<and>
   slugify_spec asciiToLowerCase
     (ascii ''--Docs--'' @ [backslash] @ ascii '' /My  Notes_-_(v2)-.md'') =
     ascii ''docs/my-notes-v2'' \<and>
   filenameToSlug asciiToLowerCase (ascii ''My Folder/Another_Post with_Spaces.md'') =
     ascii ''my-folder/another-post-with-spaces'' \<and>
   filenameToSlug asciiToLowerCase (ascii ''-a-.md'') = ascii ''a''"
proof -
  have "filenameToSlug asciiToLowerCase
          (ascii ''--Docs--'' @ [backslash] @ ascii '' /My  Notes_-_(v2)-.md'') =
        ascii ''docs/my-notes-v2''"
    by (simp add: slug_eval)
  then show ?thesis
    using asciiToLowerCase_contract
      filenameToSlug_normalization [OF asciiToLowerCase_contract,
        of "ascii ''--Docs--'' @ [backslash] @ ascii '' /My  Notes_-_(v2)-.md''"]
    by simp
qed

text \<open>
  C9. The slug generator is idempotent: an input already in slug form is returned
  unchanged, every output is in slug form, and so slugifying an output again returns it.
\<close>

theorem filenameToSlug_idempotent:
  assumes "toLowerCase_contract lc"
  shows "(slugForm y \<longrightarrow> filenameToSlug lc y = y) \<and>
         slugForm (filenameToSlug lc x) \<and>
         filenameToSlug lc (filenameToSlug lc x) = filenameToSlug lc x"
  using filenameToSlug_fixed [OF assms] filenameToSlug_form by blast

theorem filenameToSlug_idempotent_witness:
  "slugForm (ascii ''a/note-2'') \<and>
   filenameToSlug asciiToLowerCase (ascii ''a/note-2'') = ascii ''a/note-2'' \<and>
   filenameToSlug asciiToLowerCase (filenameToSlug asciiToLowerCase (ascii ''A b/ C_d.md'')) =
     filenameToSlug asciiToLowerCase (ascii ''A b/ C_d.md'')"
proof -
  have f: "slugForm (ascii ''a/note-2'')"
    by (simp add: slugForm_def slugSegmentForm_def slugUnit_def ascii_def)
  show ?thesis
    using f filenameToSlug_idempotent [OF asciiToLowerCase_contract,
        of "ascii ''a/note-2''" "ascii ''A b/ C_d.md''"]
    by simp
qed

section \<open>Properties of the SEO generator\<close>

lemma isLikelyEnglish_iff: "isLikelyEnglish s \<longleftrightarrow> \<not> list_ex codeRejectedUnit s"
proof (cases "s = []")
  case True
  then show ?thesis by (simp add: isLikelyEnglish_def)
next
  case False
  have "scanScripts nonEnglishScripts s \<longleftrightarrow> \<not> (\<exists>c \<in> set s. codeRejectedUnit c)"
    unfolding nonEnglishScripts_def codeRejectedUnit_def
    by (simp add: testClass_def list_ex_iff) blast
  with False show ?thesis by (simp add: isLikelyEnglish_def list_ex_iff)
qed

lemma isLikelyEnglish_empty: "isLikelyEnglish []"
  by (simp add: isLikelyEnglish_def)

lemma ascii_not_rejected: "c < 128 \<Longrightarrow> \<not> codeRejectedUnit c"
  by (simp add: codeRejectedUnit_def inRange_def)

lemma isLikelyEnglish_ascii: "\<forall>c \<in> set s. c < 128 \<Longrightarrow> isLikelyEnglish s"
  by (simp add: isLikelyEnglish_iff list_ex_iff ascii_not_rejected)

lemma hangul_syllable_rejected: "inRange 0xAC00 0xD7A3 c \<Longrightarrow> codeRejectedUnit c"
  by (simp add: codeRejectedUnit_def inRange_def)

lemma isLikelyEnglish_hangul:
  "c \<in> set s \<Longrightarrow> inRange 0xAC00 0xD7A3 c \<Longrightarrow> \<not> isLikelyEnglish s"
  using hangul_syllable_rejected by (auto simp: isLikelyEnglish_iff list_ex_iff)

text \<open>
  C4. The title "Me'phaa", spelled with the Latin letter saltillo U+A78C (block Latin
  Extended-D), has no code unit of a listed script, and \<open>isLikelyEnglish\<close> returns
  \<open>false\<close> for it: the first range of the Hangul expression runs from U+3131 to U+D79D.
\<close>

theorem isLikelyEnglish_rejects_latin_saltillo:
  "\<not> list_ex spec_listedScriptUnit (ascii ''Me'' @ [0xA78C] @ ascii ''phaa'') \<and>
   isLikelyEnglish (ascii ''Me'' @ [0xA78C] @ ascii ''phaa'') = False"
  by (simp add: isLikelyEnglish_def nonEnglishScripts_def testClass_def inRange_def
      spec_listedScriptUnit_def ascii_def)

lemmas parse_eval = parseEnglishSEOResponse_def matchedNonBlank_def titleMatch_def descriptionMatch_def
  seoTitleLabel_def metaDescriptionLabel_def ascii_def ciEq_def asciiUpper_def trim_def
  isWhiteSpace_def stripQuotes_def substring_def











text \<open>
  C5. For every fallback title, parsing "SEO Title: Foo", a line feed and
  "Meta Description: Bar" yields the title "Foo" and the description "Bar", without keywords.
  The title group is " Foo", the text between the label and the line feed in front of the
  next label; the description group is " Bar", the text from the label to the end; both
  are trimmed.
\<close>

theorem parse_labelled_response:
  "parseEnglishSEOResponse
     (Some (ascii ''SEO Title: Foo'' @ [10] @ ascii ''Meta Description: Bar'')) t =
     \<lparr>title = Some (ascii ''Foo''), description = Some (ascii ''Bar''), keywords' = None\<rparr> \<and>
   titleMatch (ascii ''SEO Title: Foo'' @ [10] @ ascii ''Meta Description: Bar'') =
     Some (ascii '' Foo'') \<and>
   descriptionMatch (ascii ''SEO Title: Foo'' @ [10] @ ascii ''Meta Description: Bar'') =
     Some (ascii '' Bar'') \<and>
   trim (ascii '' Foo'') = ascii ''Foo'' \<and> trim (ascii '' Bar'') = ascii ''Bar''"
  by (simp add: parse_eval)






lemma splitWhitespace_nonempty: "splitWhitespace s \<noteq> []"
  by (induction s rule: splitWhitespace.induct) (auto split: list.splits)

lemma countTokens_skip: "countTokens False (dropWhile isWhiteSpace cs) = countTokens False cs"
  by (induction cs) auto

lemma wordCount_both:
  "length (filter (\<lambda>w. w \<noteq> []) (splitWhitespace s)) = countTokens False s \<and>
   length (filter (\<lambda>w. w \<noteq> []) (tl (splitWhitespace s))) = countTokens True s"
proof (induction s rule: splitWhitespace.induct)
  case 1
  show ?case by simp
next
  case (2 c cs)
  show ?case
  proof (cases "isWhiteSpace c")
    case True
    with 2 show ?thesis by (simp add: countTokens_skip)
  next
    case False
    obtain w ws where w: "splitWhitespace cs = w # ws"
      using splitWhitespace_nonempty [of cs] by (cases "splitWhitespace cs") auto
    with False 2 show ?thesis by simp
  qed
qed

lemma wordCount_spec: "wordCount content = spec_tokenCount content"
  by (simp add: wordCount_def spec_tokenCount_def wordCount_both)

lemma resolvedMinLength_spec: "resolvedMinLength config = spec_minContentLength config"
  by (simp add: resolvedMinLength_def spec_minContentLength_def destructureDefault_def
      orNumber_def split: option.splits)

text \<open>
  C2. Content with fewer non-empty whitespace-delimited tokens than the configured
  threshold (50 when none is configured) is skipped whatever the title, and a title that
  is not likely English is skipped whatever the content; the result is \<open>undefined\<close>.
\<close>

theorem markdownToSEO_gates:
  "(int (spec_tokenCount content) < spec_minContentLength config \<longrightarrow>
      markdownToSEO pipe originalTitle content config = Inr None) \<and>
   (\<not> isLikelyEnglish originalTitle \<longrightarrow>
      markdownToSEO pipe originalTitle content config = Inr None)"
  by (simp add: markdownToSEO_def wordCount_spec resolvedMinLength_spec)

lemmas seo_eval = markdownToSEO_def isLikelyEnglish_def nonEnglishScripts_def testClass_def
  inRange_def wordCount_def resolvedMinLength_def resolvedMaxLength_def resolvedModelName_def
  destructureDefault_def orNumber_def orString_def generateAndParse_def
  extractGeneratedText_def generated_text_def cannedPipeline_def

theorem markdownToSEO_gates_witness:
  "int (spec_tokenCount (ascii ''too short'')) <
     spec_minContentLength \<lparr>modelName = None, minContentLengthForSeo = Some 3,
                             maxContentLengthForPrompt = None\<rparr> \<and>
   markdownToSEO cannedPipeline (ascii ''Short Note'') (ascii ''too short'')
     \<lparr>modelName = None, minContentLengthForSeo = Some 3, maxContentLengthForPrompt = None\<rparr> =
     Inr None \<and>
   \<not> isLikelyEnglish [0xD55C, 0xAE00] \<and>
   markdownToSEO cannedPipeline [0xD55C, 0xAE00] (ascii ''one two three'')
     \<lparr>modelName = None, minContentLengthForSeo = Some 3, maxContentLengthForPrompt = None\<rparr> =
     Inr None"
proof -
  have a: "int (spec_tokenCount (ascii ''too short'')) <
     spec_minContentLength \<lparr>modelName = None, minContentLengthForSeo = Some 3,
                             maxContentLengthForPrompt = None\<rparr>"
    by (simp add: spec_tokenCount_def spec_minContentLength_def ascii_def isWhiteSpace_def)
  have b: "\<not> isLikelyEnglish [0xD55C, 0xAE00]"
    by (simp add: isLikelyEnglish_def nonEnglishScripts_def testClass_def inRange_def)
  show ?thesis
    using a b
      markdownToSEO_gates [of "ascii ''too short''"
        "\<lparr>modelName = None, minContentLengthForSeo = Some 3, maxContentLengthForPrompt = None\<rparr>"
        cannedPipeline "ascii ''Short Note''"]
      markdownToSEO_gates [of "ascii ''one two three''"
        "\<lparr>modelName = None, minContentLengthForSeo = Some 3, maxContentLengthForPrompt = None\<rparr>"
        cannedPipeline "[0xD55C, 0xAE00]"]
    by blast
qed

lemma canned_runs:
  "markdownToSEO cannedPipeline (ascii ''T'') (ascii ''one two three'')
     \<lparr>modelName = None, minContentLengthForSeo = Some 3, maxContentLengthForPrompt = None\<rparr> =
     Inr (Some \<lparr>title = Some (ascii ''A''), description = Some (ascii ''B''), keywords' = None\<rparr>)"
  by (simp add: seo_eval parse_eval)

lemma markdownToSEO_returns: "\<exists>r. markdownToSEO pipe t c cfg = Inr r"
  by (simp add: markdownToSEO_def split: sum.splits)

lemma markdownToSEO_catches:
  "generateAndParse pipe (resolvedModelName cfg) t
     (contentExcerptOf c (resolvedMaxLength cfg)) = Inl e \<Longrightarrow>
   markdownToSEO pipe t c cfg = Inr None"
  by (simp add: markdownToSEO_def)

lemma markdownToSEO_Some:
  assumes "markdownToSEO pipe t c cfg = Inr (Some d)"
  shows "isLikelyEnglish t \<and> \<not> int (wordCount c) < resolvedMinLength cfg \<and>
         generateAndParse pipe (resolvedModelName cfg) t
           (contentExcerptOf c (resolvedMaxLength cfg)) = Inr (Some d)"
  using assms by (auto simp: markdownToSEO_def split: if_splits sum.splits)

lemma generateAndParse_Some:
  assumes "generateAndParse pipe m t x = Inr (Some d)"
  shows "\<exists>gen outputs g.
           pipe (ascii ''text2text-generation'') m = Inr gen \<and>
           gen (constructEnglishSEOPrompt t x) 15 120 = Inr outputs \<and>
           extractGeneratedText outputs = Inr (Some g) \<and> g \<noteq> [] \<and>
           d = parseEnglishSEOResponse (Some g) t"
  using assms
  by (auto simp: generateAndParse_def split: sum.splits option.splits if_splits)

text \<open>
  C3. Whatever the collaborator does, \<open>markdownToSEO\<close> resolves and never rejects. When
  loading the model throws, when the invocation throws, when reading the response throws,
  and when the response holds no generated text or an empty one, the result is
  \<open>undefined\<close>. A record is returned only as the parse of a non-empty generated text, so
  never after a failure of the model.
\<close>

theorem markdownToSEO_never_throws:
  "(\<exists>r. markdownToSEO pipe t c cfg = Inr r) \<and>
   (pipe (ascii ''text2text-generation'') (resolvedModelName cfg) = Inl e \<longrightarrow>
      markdownToSEO pipe t c cfg = Inr None) \<and>
   (pipe (ascii ''text2text-generation'') (resolvedModelName cfg) = Inr gen \<and>
    gen (constructEnglishSEOPrompt t (contentExcerptOf c (resolvedMaxLength cfg))) 15 120 = Inl e \<longrightarrow>
      markdownToSEO pipe t c cfg = Inr None) \<and>
   (pipe (ascii ''text2text-generation'') (resolvedModelName cfg) = Inr gen \<and>
    gen (constructEnglishSEOPrompt t (contentExcerptOf c (resolvedMaxLength cfg))) 15 120 =
      Inr outputs \<and>
    (extractGeneratedText outputs = Inl e \<or> extractGeneratedText outputs = Inr None \<or>
     extractGeneratedText outputs = Inr (Some [])) \<longrightarrow>
      markdownToSEO pipe t c cfg = Inr None) \<and>
   (markdownToSEO pipe t c cfg = Inr (Some d) \<longrightarrow>
      (\<exists>gen' outputs' g.
         pipe (ascii ''text2text-generation'') (resolvedModelName cfg) = Inr gen' \<and>
         gen' (constructEnglishSEOPrompt t (contentExcerptOf c (resolvedMaxLength cfg))) 15 120 =
           Inr outputs' \<and>
         extractGeneratedText outputs' = Inr (Some g) \<and> g \<noteq> [] \<and>
         d = parseEnglishSEOResponse (Some g) t))"
proof (intro conjI impI)
  show "\<exists>r. markdownToSEO pipe t c cfg = Inr r" by (rule markdownToSEO_returns)
next
  assume "pipe (ascii ''text2text-generation'') (resolvedModelName cfg) = Inl e"
  then show "markdownToSEO pipe t c cfg = Inr None"
    by (simp add: markdownToSEO_def generateAndParse_def)
next
  assume "pipe (ascii ''text2text-generation'') (resolvedModelName cfg) = Inr gen \<and>
    gen (constructEnglishSEOPrompt t (contentExcerptOf c (resolvedMaxLength cfg))) 15 120 = Inl e"
  then show "markdownToSEO pipe t c cfg = Inr None"
    by (simp add: markdownToSEO_def generateAndParse_def)
next
  assume "pipe (ascii ''text2text-generation'') (resolvedModelName cfg) = Inr gen \<and>
    gen (constructEnglishSEOPrompt t (contentExcerptOf c (resolvedMaxLength cfg))) 15 120 =
      Inr outputs \<and>
    (extractGeneratedText outputs = Inl e \<or> extractGeneratedText outputs = Inr None \<or>
     extractGeneratedText outputs = Inr (Some []))"
  then show "markdownToSEO pipe t c cfg = Inr None"
    by (auto simp: markdownToSEO_def generateAndParse_def)
next
  assume "markdownToSEO pipe t c cfg = Inr (Some d)"
  then have "generateAndParse pipe (resolvedModelName cfg) t
           (contentExcerptOf c (resolvedMaxLength cfg)) = Inr (Some d)"
    using markdownToSEO_Some by blast
  then show "\<exists>gen' outputs' g.
         pipe (ascii ''text2text-generation'') (resolvedModelName cfg) = Inr gen' \<and>
         gen' (constructEnglishSEOPrompt t (contentExcerptOf c (resolvedMaxLength cfg))) 15 120 =
           Inr outputs' \<and>
         extractGeneratedText outputs' = Inr (Some g) \<and> g \<noteq> [] \<and>
         d = parseEnglishSEOResponse (Some g) t"
    by (rule generateAndParse_Some)
qed

theorem markdownToSEO_never_throws_witness:
  "markdownToSEO failingLoad (ascii ''T'') (ascii ''one two three'')
     \<lparr>modelName = None, minContentLengthForSeo = Some 3, maxContentLengthForPrompt = None\<rparr> =
     Inr None \<and>
   markdownToSEO failingInvoke (ascii ''T'') (ascii ''one two three'')
     \<lparr>modelName = None, minContentLengthForSeo = Some 3, maxContentLengthForPrompt = None\<rparr> =
     Inr None \<and>
   extractGeneratedText JNull = Inl TypeError \<and>
   markdownToSEO (respondingWith JNull) (ascii ''T'') (ascii ''one two three'')
     \<lparr>modelName = None, minContentLengthForSeo = Some 3, maxContentLengthForPrompt = None\<rparr> =
     Inr None \<and>
   extractGeneratedText (JArray [JObject [(ascii ''generated_text'', JNumber 7)]]) = Inr None \<and>
   markdownToSEO (respondingWith (JArray [JObject [(ascii ''generated_text'', JNumber 7)]]))
     (ascii ''T'') (ascii ''one two three'')
     \<lparr>modelName = None, minContentLengthForSeo = Some 3, maxContentLengthForPrompt = None\<rparr> =
     Inr None \<and>
   (\<exists>g. extractGeneratedText
          (JArray [JObject [(ascii ''generated_text'',
             JString (ascii ''SEO Title: A'' @ [10] @ ascii ''Meta Description: B''))]]) =
          Inr (Some g) \<and> g \<noteq> [] \<and>
        \<lparr>title = Some (ascii ''A''), description = Some (ascii ''B''), keywords' = None\<rparr> =
          parseEnglishSEOResponse (Some g) (ascii ''T''))"
proof -
  let ?cfg = "\<lparr>modelName = None, minContentLengthForSeo = Some 3,
               maxContentLengthForPrompt = None\<rparr>"
  let ?t = "ascii ''T''" and ?c = "ascii ''one two three''"
  have 1: "markdownToSEO failingLoad ?t ?c ?cfg = Inr None"
    using markdownToSEO_never_throws [where pipe = failingLoad and t = ?t and c = ?c
        and cfg = ?cfg and e = "Thrown (JString (ascii ''model not found''))"]
    by (simp add: failingLoad_def)
  have 2: "markdownToSEO failingInvoke ?t ?c ?cfg = Inr None"
    using markdownToSEO_never_throws [where pipe = failingInvoke and t = ?t and c = ?c
        and cfg = ?cfg and e = "Thrown (JString (ascii ''out of memory''))"
        and gen = "\<lambda>prompt minTokens maxTokens. Inl (Thrown (JString (ascii ''out of memory'')))"]
    by (simp add: failingInvoke_def)
  have x3: "extractGeneratedText JNull = Inl TypeError"
    by (simp add: extractGeneratedText_def generated_text_def)
  have 3: "markdownToSEO (respondingWith JNull) ?t ?c ?cfg = Inr None"
    using x3 markdownToSEO_never_throws [where pipe = "respondingWith JNull" and t = ?t
        and c = ?c and cfg = ?cfg and e = TypeError and outputs = JNull
        and gen = "\<lambda>prompt minTokens maxTokens. Inr JNull"]
    by (simp add: respondingWith_def)
  let ?v = "JArray [JObject [(ascii ''generated_text'', JNumber 7)]]"
  have x4: "extractGeneratedText ?v = Inr None"
    by (simp add: extractGeneratedText_def generated_text_def)
  have 4: "markdownToSEO (respondingWith ?v) ?t ?c ?cfg = Inr None"
    using x4 markdownToSEO_never_throws [where pipe = "respondingWith ?v" and t = ?t
        and c = ?c and cfg = ?cfg and outputs = ?v
        and gen = "\<lambda>prompt minTokens maxTokens. Inr ?v"]
    by (simp add: respondingWith_def)
  let ?d = "\<lparr>title = Some (ascii ''A''), description = Some (ascii ''B''), keywords' = None\<rparr>"
  have "\<exists>gen' outputs' g.
         cannedPipeline (ascii ''text2text-generation'') (resolvedModelName ?cfg) = Inr gen' \<and>
         gen' (constructEnglishSEOPrompt ?t (contentExcerptOf ?c (resolvedMaxLength ?cfg))) 15 120 =
           Inr outputs' \<and>
         extractGeneratedText outputs' = Inr (Some g) \<and> g \<noteq> [] \<and>
         ?d = parseEnglishSEOResponse (Some g) ?t"
    using canned_runs markdownToSEO_never_throws [where pipe = cannedPipeline and t = ?t
        and c = ?c and cfg = ?cfg and d = ?d]
    by blast
  then have 5: "\<exists>g. extractGeneratedText
          (JArray [JObject [(ascii ''generated_text'',
             JString (ascii ''SEO Title: A'' @ [10] @ ascii ''Meta Description: B''))]]) =
          Inr (Some g) \<and> g \<noteq> [] \<and> ?d = parseEnglishSEOResponse (Some g) ?t"
    by (auto simp: cannedPipeline_def)
  show ?thesis using 1 2 x3 3 x4 4 5 by blast
qed

lemma sliceFromStart_zero: "sliceFromStart xs 0 = []"
  by (simp add: sliceFromStart_def)

lemma contentExcerptOf_zero: "contentExcerptOf content 0 = []"
  by (simp add: contentExcerptOf_def sliceFromStart_zero)

lemma resolvedMinLength_configured:
  "minContentLengthForSeo cfg = Some n \<Longrightarrow> resolvedMinLength cfg = n"
  by (simp add: resolvedMinLength_def destructureDefault_def)

lemma resolvedMaxLength_configured:
  "maxContentLengthForPrompt cfg = Some n \<Longrightarrow> resolvedMaxLength cfg = n"
  by (simp add: resolvedMaxLength_def destructureDefault_def)

lemma resolved_omitted:
  "minContentLengthForSeo cfg = None \<Longrightarrow> resolvedMinLength cfg = 50"
  "maxContentLengthForPrompt cfg = None \<Longrightarrow> resolvedMaxLength cfg = 250"
  by (simp_all add: resolvedMinLength_def resolvedMaxLength_def destructureDefault_def
      orNumber_def)

text \<open>
  C10, as stated, fails. With the threshold 0 configured, the one-word content "hello" is
  not skipped: the collaborator is called and its response is parsed. With the threshold
  omitted the same content is skipped. With a maximal prompt length of 0 the excerpt of
  "hello world" is empty; with the length omitted it is "hello world".
\<close>

theorem configured_zero_counterexample:
  "wordCount (ascii ''hello'') = 1 \<and>
   markdownToSEO cannedPipeline (ascii ''T'') (ascii ''hello'')
     \<lparr>modelName = None, minContentLengthForSeo = Some 0, maxContentLengthForPrompt = None\<rparr> =
     Inr (Some \<lparr>title = Some (ascii ''A''), description = Some (ascii ''B''), keywords' = None\<rparr>) \<and>
   markdownToSEO cannedPipeline (ascii ''T'') (ascii ''hello'')
     \<lparr>modelName = None, minContentLengthForSeo = None, maxContentLengthForPrompt = None\<rparr> =
     Inr None \<and>
   contentExcerptOf (ascii ''hello world'')
     (resolvedMaxLength \<lparr>modelName = None, minContentLengthForSeo = None,
                          maxContentLengthForPrompt = Some 0\<rparr>) = [] \<and>
   contentExcerptOf (ascii ''hello world'')
     (resolvedMaxLength \<lparr>modelName = None, minContentLengthForSeo = None,
                          maxContentLengthForPrompt = None\<rparr>) = ascii ''hello world''"
  by (simp add: seo_eval parse_eval contentExcerptOf_def sliceFromStart_def)

text \<open>
  C10, amended. A configured threshold is used as it is, 0 included; only an omitted
  threshold takes the default, 50 words of content and 250 words of prompt. With the
  threshold 0 the length gate skips nothing: for a title that is likely English the
  result is that of the generation. With a maximal prompt length of 0 the excerpt is empty.
\<close>

theorem configured_threshold_is_used:
  "(minContentLengthForSeo cfg = Some n \<longrightarrow> resolvedMinLength cfg = n) \<and>
   (maxContentLengthForPrompt cfg = Some n \<longrightarrow> resolvedMaxLength cfg = n) \<and>
   (minContentLengthForSeo cfg = None \<longrightarrow> resolvedMinLength cfg = 50) \<and>
   (maxContentLengthForPrompt cfg = None \<longrightarrow> resolvedMaxLength cfg = 250) \<and>
   (minContentLengthForSeo cfg = Some 0 \<and> isLikelyEnglish t \<longrightarrow>
      markdownToSEO pipe t content cfg =
        (case generateAndParse pipe (resolvedModelName cfg) t
                (contentExcerptOf content (resolvedMaxLength cfg)) of
           Inl e \<Rightarrow> Inr None
         | Inr r \<Rightarrow> Inr r)) \<and>
   (maxContentLengthForPrompt cfg = Some 0 \<longrightarrow>
      contentExcerptOf content (resolvedMaxLength cfg) = [])"
  by (simp add: resolvedMinLength_configured resolvedMaxLength_configured resolved_omitted
      contentExcerptOf_zero markdownToSEO_def)

theorem configured_threshold_is_used_witness:
  "resolvedMinLength \<lparr>modelName = None, minContentLengthForSeo = Some 0,
                        maxContentLengthForPrompt = Some 0\<rparr> = 0 \<and>
   resolvedMaxLength \<lparr>modelName = None, minContentLengthForSeo = Some 0,
                        maxContentLengthForPrompt = Some 0\<rparr> = 0 \<and>
   resolvedMinLength \<lparr>modelName = None, minContentLengthForSeo = None,
                        maxContentLengthForPrompt = None\<rparr> = 50 \<and>
   resolvedMaxLength \<lparr>modelName = None, minContentLengthForSeo = None,
                        maxContentLengthForPrompt = None\<rparr> = 250 \<and>
   markdownToSEO failingLoad (ascii ''T'') [] \<lparr>modelName = None, minContentLengthForSeo = Some 0,
                        maxContentLengthForPrompt = Some 0\<rparr> =
     (case generateAndParse failingLoad DEFAULT_MODEL_FOR_TEXT_GENERATION (ascii ''T'') [] of
        Inl e \<Rightarrow> Inr None
      | Inr r \<Rightarrow> Inr r)"
proof -
  let ?z = "\<lparr>modelName = None, minContentLengthForSeo = Some 0,
              maxContentLengthForPrompt = Some 0\<rparr>"
  let ?o = "\<lparr>modelName = None, minContentLengthForSeo = None,
              maxContentLengthForPrompt = None\<rparr>"
  have e: "isLikelyEnglish (ascii ''T'')"
    by (simp add: isLikelyEnglish_def nonEnglishScripts_def testClass_def inRange_def ascii_def)
  have m: "resolvedModelName ?z = DEFAULT_MODEL_FOR_TEXT_GENERATION"
    by (simp add: resolvedModelName_def destructureDefault_def orString_def)
  show ?thesis
    using e configured_threshold_is_used [of ?z 0 "ascii ''T''" failingLoad "[]"]
      configured_threshold_is_used [of ?o 0 "ascii ''T''" failingLoad "[]"]
    by (simp add: m contentExcerptOf_zero)
qed

section \<open>Properties of the note indexer\<close>

lemma dom_foldl_addByFullPathSlug:
  "dom (foldl addByFullPathSlug m ns) = dom m \<union> fullPathSlug ` set ns"
  by (induction ns arbitrary: m) (auto simp: addByFullPathSlug_def)

lemma Union_ran_addBySimpleSlug:
  "\<Union> (ran (addBySimpleSlug m n)) = insert (fullPathSlug n) (\<Union> (ran m))"
proof (cases "m (simpleSlug n)")
  case None
  then show ?thesis by (simp add: addBySimpleSlug_def)
next
  case (Some slugs)
  have m: "m = (m(simpleSlug n := None))(simpleSlug n \<mapsto> slugs)"
    using Some by (simp add: fun_upd_idem)
  have "ran m = insert slugs (ran (m(simpleSlug n := None)))"
    by (subst m) (simp only: ran_map_upd fun_upd_same)
  moreover have "ran (addBySimpleSlug m n) =
      insert (insert (fullPathSlug n) slugs) (ran (m(simpleSlug n := None)))"
  proof -
    have "addBySimpleSlug m n =
        (m(simpleSlug n := None))(simpleSlug n \<mapsto> insert (fullPathSlug n) slugs)"
      using Some by (simp add: addBySimpleSlug_def)
    then show ?thesis by (simp only: ran_map_upd fun_upd_same)
  qed
  ultimately show ?thesis by auto
qed

lemma Union_ran_foldl_addBySimpleSlug:
  "\<Union> (ran (foldl addBySimpleSlug m ns)) = \<Union> (ran m) \<union> fullPathSlug ` set ns"
  by (induction ns arbitrary: m) (auto simp: Union_ran_addBySimpleSlug)

lemma scan_keys:
  "dom (notesMapByFullPathSlug (scanAndProcessNotes env opts files)) =
     fullPathSlug ` set (allNotes (scanAndProcessNotes env opts files))"
  by (simp add: scanAndProcessNotes_def Let_def dom_foldl_addByFullPathSlug)

lemma scan_simple_union:
  "\<Union> (ran (notesMapBySimpleSlug (scanAndProcessNotes env opts files))) =
     fullPathSlug ` set (allNotes (scanAndProcessNotes env opts files))"
  by (simp add: scanAndProcessNotes_def Let_def Union_ran_foldl_addBySimpleSlug)

lemma card_image_set_le: "card (f ` set xs) \<le> length xs"
proof -
  have "card (f ` set xs) \<le> card (set xs)" by (simp add: card_image_le)
  also have "\<dots> \<le> length xs" by (rule card_length)
  finally show ?thesis .
qed

lemma card_image_set_eq_iff: "card (f ` set xs) = length xs \<longleftrightarrow> distinct (map f xs)"
proof
  assume "card (f ` set xs) = length xs"
  then have "card (set (map f xs)) = length (map f xs)" by simp
  then show "distinct (map f xs)" by (rule card_distinct)
next
  assume "distinct (map f xs)"
  then have "card (set (map f xs)) = length (map f xs)" by (rule distinct_card)
  then show "card (f ` set xs) = length xs" by simp
qed

lemmas scan_eval = scanAndProcessNotes_def processFile_def slugOf_def filenameOf_def
  seoFor_def plainEnv_def defaultOptions_def fileAt_def Let_def

text \<open>
  C1, as stated, fails on its second half. The distinct files "a b.md" and "a_b.md" have
  the same full-path slug "a-b": the scan returns two notes, and the union of the sets of
  the simple-slug map is the one slug "a-b".
\<close>

theorem scan_index_counterexample:
  "length (allNotes (scanAndProcessNotes plainEnv defaultOptions
      [fileAt (ascii ''a b.md''), fileAt (ascii ''a_b.md'')])) = 2 \<and>
   \<Union> (ran (notesMapBySimpleSlug (scanAndProcessNotes plainEnv defaultOptions
      [fileAt (ascii ''a b.md''), fileAt (ascii ''a_b.md'')]))) = {ascii ''a-b''} \<and>
   card (\<Union> (ran (notesMapBySimpleSlug (scanAndProcessNotes plainEnv defaultOptions
      [fileAt (ascii ''a b.md''), fileAt (ascii ''a_b.md'')])))) \<noteq>
   length (allNotes (scanAndProcessNotes plainEnv defaultOptions
      [fileAt (ascii ''a b.md''), fileAt (ascii ''a_b.md'')]))"
proof -
  have ns: "map fullPathSlug (allNotes (scanAndProcessNotes plainEnv defaultOptions
      [fileAt (ascii ''a b.md''), fileAt (ascii ''a_b.md'')])) = [ascii ''a-b'', ascii ''a-b'']"
    by (simp add: scan_eval slug_eval)
  have "fullPathSlug ` set (allNotes (scanAndProcessNotes plainEnv defaultOptions
      [fileAt (ascii ''a b.md''), fileAt (ascii ''a_b.md'')])) = {ascii ''a-b''}"
    using arg_cong [OF ns, of set] by simp
  then have u: "\<Union> (ran (notesMapBySimpleSlug (scanAndProcessNotes plainEnv defaultOptions
      [fileAt (ascii ''a b.md''), fileAt (ascii ''a_b.md'')]))) = {ascii ''a-b''}"
    by (simp only: scan_simple_union)
  have l: "length (allNotes (scanAndProcessNotes plainEnv defaultOptions
      [fileAt (ascii ''a b.md''), fileAt (ascii ''a_b.md'')])) = 2"
    using arg_cong [OF ns, of length] by simp
  show ?thesis by (simp only: u l) simp
qed

text \<open>
  C1, amended. For every scan result, every full-path slug in a value-set of
  \<open>notesMapBySimpleSlug\<close> is a key of \<open>notesMapByFullPathSlug\<close>; the union of the
  value-sets is the set of the full-path slugs of \<open>allNotes\<close>, so its cardinality is at
  most the length of \<open>allNotes\<close>, and equal to it exactly when the notes have pairwise
  distinct full-path slugs.
\<close>

theorem scan_index_invariant:
  assumes "r = scanAndProcessNotes env opts files"
  shows "(\<forall>slugs \<in> ran (notesMapBySimpleSlug r). slugs \<subseteq> dom (notesMapByFullPathSlug r)) \<and>
         \<Union> (ran (notesMapBySimpleSlug r)) = fullPathSlug ` set (allNotes r) \<and>
         card (\<Union> (ran (notesMapBySimpleSlug r))) \<le> length (allNotes r) \<and>
         (card (\<Union> (ran (notesMapBySimpleSlug r))) = length (allNotes r) \<longleftrightarrow>
            distinct (map fullPathSlug (allNotes r)))"
proof -
  have u: "\<Union> (ran (notesMapBySimpleSlug r)) = fullPathSlug ` set (allNotes r)"
    unfolding assms by (rule scan_simple_union)
  have k: "dom (notesMapByFullPathSlug r) = fullPathSlug ` set (allNotes r)"
    unfolding assms by (rule scan_keys)
  have "\<forall>slugs \<in> ran (notesMapBySimpleSlug r). slugs \<subseteq> \<Union> (ran (notesMapBySimpleSlug r))"
    by blast
  then have 1: "\<forall>slugs \<in> ran (notesMapBySimpleSlug r). slugs \<subseteq> dom (notesMapByFullPathSlug r)"
    by (simp only: u k)
  show ?thesis
    using 1 u by (simp only: card_image_set_le card_image_set_eq_iff simp_thms)
qed

theorem scan_index_invariant_witness:
  "notesMapBySimpleSlug (scanAndProcessNotes plainEnv defaultOptions
      [fileAt (ascii ''a/note.md''), fileAt (ascii ''b/note.md'')]) (ascii ''note'') =
     Some {ascii ''a/note'', ascii ''b/note''} \<and>
   \<Union> (ran (notesMapBySimpleSlug (scanAndProcessNotes plainEnv defaultOptions
      [fileAt (ascii ''a/note.md''), fileAt (ascii ''b/note.md'')]))) =
     {ascii ''a/note'', ascii ''b/note''} \<and>
   card (\<Union> (ran (notesMapBySimpleSlug (scanAndProcessNotes plainEnv defaultOptions
      [fileAt (ascii ''a/note.md''), fileAt (ascii ''b/note.md'')])))) = 2"
proof -
  let ?r = "scanAndProcessNotes plainEnv defaultOptions
      [fileAt (ascii ''a/note.md''), fileAt (ascii ''b/note.md'')]"
  have ns: "map fullPathSlug (allNotes ?r) = [ascii ''a/note'', ascii ''b/note'']"
    by (simp add: scan_eval slug_eval)
  have simple: "map simpleSlug (allNotes ?r) = [ascii ''note'', ascii ''note'']"
    by (simp add: scan_eval slug_eval)
  have d: "distinct (map fullPathSlug (allNotes ?r))"
    by (simp only: ns) (simp add: ascii_def)
  have l: "length (allNotes ?r) = 2"
    using arg_cong [OF ns, of length] by simp
  have s: "fullPathSlug ` set (allNotes ?r) = {ascii ''a/note'', ascii ''b/note''}"
    using arg_cong [OF ns, of set] by simp
  have m: "notesMapBySimpleSlug ?r (ascii ''note'') = Some {ascii ''a/note'', ascii ''b/note''}"
    by (simp add: scan_eval slug_eval addBySimpleSlug_def insert_commute)
  have inv: "\<Union> (ran (notesMapBySimpleSlug ?r)) = fullPathSlug ` set (allNotes ?r) \<and>
      (card (\<Union> (ran (notesMapBySimpleSlug ?r))) = length (allNotes ?r) \<longleftrightarrow>
         distinct (map fullPathSlug (allNotes ?r)))"
    using scan_index_invariant [of ?r plainEnv defaultOptions
        "[fileAt (ascii ''a/note.md''), fileAt (ascii ''b/note.md'')]"]
    by blast
  from inv have "\<Union> (ran (notesMapBySimpleSlug ?r)) = fullPathSlug ` set (allNotes ?r)"
    by blast
  then have u: "\<Union> (ran (notesMapBySimpleSlug ?r)) = {ascii ''a/note'', ascii ''b/note''}"
    using s by (rule trans)
  from inv d have "card (\<Union> (ran (notesMapBySimpleSlug ?r))) = length (allNotes ?r)"
    by blast
  then have c: "card (\<Union> (ran (notesMapBySimpleSlug ?r))) = 2"
    using l by (rule trans)
  from m u c show ?thesis by blast
qed

end
